theory Spec2Isabelle
  imports Main
begin

section \<open>The activity log and its entries\<close>

text \<open>
  An entry of \<^verbatim>\<open>logs/entries.json\<close> has the five fields of the entry format
  (\<^verbatim>\<open>timestamp\<close>, \<^verbatim>\<open>type\<close>, \<^verbatim>\<open>title\<close>, \<^verbatim>\<open>description\<close>, \<^verbatim>\<open>files\<close>). The model takes
  every field as present and of its JSON type; the value of \<^verbatim>\<open>type\<close> is any string,
  registered or not. An entry object of the script has the same fields and, once
  \<^verbatim>\<open>loadActivityLog\<close> or \<^verbatim>\<open>addEntry\<close> has written them, an \<^verbatim>\<open>id\<close> and a \<^verbatim>\<open>status\<close>
  (\<open>None\<close> while the property is missing).
\<close>

record raw_entry =
  timestamp :: string
  entry_type :: string
  title :: string
  description :: string
  files :: "string list"

record entry = raw_entry +
  entry_id :: "string option"
  status :: "string option"

datatype js_error = TypeError

subsection \<open>String(n) and padStart\<close>

definition digit_char :: "nat \<Rightarrow> char" where
  "digit_char d = char_of (48 + d)"

fun nat_String :: "nat \<Rightarrow> string" where
  "nat_String n = (if n < 10 then [digit_char n] else nat_String (n div 10) @ [digit_char (n mod 10)])"

declare nat_String.simps [simp del]

text \<open>\<^verbatim>\<open>String(i)\<close> on an integer: decimal digits, with a minus sign below zero.\<close>

definition js_String :: "int \<Rightarrow> string" where
  "js_String i = (if i < 0 then CHR ''-'' # nat_String (nat (- i)) else nat_String (nat i))"

text \<open>\<^verbatim>\<open>s.padStart(n, c)\<close> with a one-character pad string.\<close>

definition padStart :: "nat \<Rightarrow> char \<Rightarrow> string \<Rightarrow> string" where
  "padStart n c s = replicate (n - length s) c @ s"

text \<open>The expression \<^verbatim>\<open>String(index + 1).padStart(3, '0')\<close> of lines 19, 212, 217 and 567.\<close>

definition make_id :: "int \<Rightarrow> string" where
  "make_id index = padStart 3 (CHR ''0'') (js_String (index + 1))"

subsection \<open>typeConfig\<close>

text \<open>
  \<^verbatim>\<open>typeConfig\<close> is an object literal: its own properties are the seven categories, each
  a pair of label and color.
\<close>

definition typeConfig :: "(string \<times> (string \<times> string)) list" where
  "typeConfig =
    [(''setup'', (''Setup'', ''#9d4edd'')),
     (''feature'', (''Feature'', ''#39ff14'')),
     (''fix'', (''Bug Fix'', ''#ff3366'')),
     (''refactor'', (''Refactor'', ''#ff6b00'')),
     (''test'', (''Testing'', ''#00d4ff'')),
     (''docs'', (''Docs'', ''#6b6b7b'')),
     (''deploy'', (''Deploy'', ''#ff6b00''))]"

text \<open>
  An object literal inherits from \<^verbatim>\<open>Object.prototype\<close>, so \<^verbatim>\<open>typeConfig[k]\<close> is also
  defined for the property names of \<^verbatim>\<open>Object.prototype\<close> (ECMAScript, with the browser
  annex): there it is a built-in function, or \<^verbatim>\<open>Object.prototype\<close> itself for
  \<^verbatim>\<open>__proto__\<close>, none of which has a \<^verbatim>\<open>label\<close> or a \<^verbatim>\<open>color\<close>.
\<close>

definition objectPrototypeKeys :: "string list" where
  "objectPrototypeKeys =
    [''constructor'', ''hasOwnProperty'', ''isPrototypeOf'', ''propertyIsEnumerable'',
     ''toLocaleString'', ''toString'', ''valueOf'', ''__proto__'',
     ''__defineGetter__'', ''__defineSetter__'', ''__lookupGetter__'', ''__lookupSetter__'']"

datatype config_value = ConfigEntry string string | Inherited | Undefined

text \<open>\<^verbatim>\<open>typeConfig[k]\<close>: own property first, then the prototype, else \<^verbatim>\<open>undefined\<close>.\<close>

definition typeConfig_get :: "string \<Rightarrow> config_value" where
  "typeConfig_get k =
     (case map_of typeConfig k of
        Some (l, c) \<Rightarrow> ConfigEntry l c
      | None \<Rightarrow> if k \<in> set objectPrototypeKeys then Inherited else Undefined)"

text \<open>
  \<^verbatim>\<open>v.label\<close> and \<^verbatim>\<open>v.color\<close>: reading a property of \<^verbatim>\<open>undefined\<close> throws a TypeError;
  on an inherited member the property is missing and the value is \<^verbatim>\<open>undefined\<close>
  (\<open>None\<close>).
\<close>

fun get_label :: "config_value \<Rightarrow> js_error + string option" where
  "get_label (ConfigEntry l c) = Inr (Some l)"
| "get_label Inherited = Inr None"
| "get_label Undefined = Inl TypeError"

fun get_color :: "config_value \<Rightarrow> js_error + string option" where
  "get_color (ConfigEntry l c) = Inr (Some c)"
| "get_color Inherited = Inr None"
| "get_color Undefined = Inl TypeError"

text \<open>A value interpolated into a template literal: \<^verbatim>\<open>undefined\<close> prints as such.\<close>

fun interpolate :: "string option \<Rightarrow> string" where
  "interpolate (Some s) = s"
| "interpolate None = ''undefined''"

text \<open>\<^verbatim>\<open>xs[i]\<close> on an array with an integer index: \<^verbatim>\<open>undefined\<close> (\<open>None\<close>) out of range.\<close>

definition js_index :: "'a list \<Rightarrow> int \<Rightarrow> 'a option" where
  "js_index xs i = (if 0 \<le> i \<and> i < int (length xs) then Some (xs ! nat i) else None)"

subsection \<open>Objects\<close>

text \<open>
  Entry objects live in a heap, a list whose positions are the addresses; an array of
  entries is a list of addresses, so that two places can hold the same object and a
  write through one is seen through the other. \<open>heap_get\<close> reads the object at an
  address, \<open>None\<close> where nothing has been allocated.
\<close>

definition heap_get :: "'a list \<Rightarrow> nat \<Rightarrow> 'a option" where
  "heap_get h a = (if a < length h then Some (h ! a) else None)"

text \<open>
  \<^verbatim>\<open>log[i]\<close> read through to the object: \<^verbatim>\<open>undefined\<close> (\<open>None\<close>) out of range. The
  script puts only addresses of objects into its array (those \<^verbatim>\<open>loadActivityLog\<close>
  allocates and those \<^verbatim>\<open>addEntry\<close> has found an object at).
\<close>

definition entry_of :: "entry list \<Rightarrow> nat list \<Rightarrow> int \<Rightarrow> entry option" where
  "entry_of h log i = (case js_index log i of None \<Rightarrow> None | Some a \<Rightarrow> heap_get h a)"

section \<open>The page state\<close>

record rendered_range =
  rstart :: int
  rend :: int

text \<open>One marker of \<^verbatim>\<open>.timeline-nodes\<close>, as \<^verbatim>\<open>createNodeHTML\<close> writes it.\<close>

record node =
  node_index :: int
  node_active :: bool
  node_color :: string
  node_number :: string
  node_title :: string

text \<open>One card of \<^verbatim>\<open>.cards-row\<close>, as \<^verbatim>\<open>createCardHTML\<close> writes it.\<close>

record card =
  card_index :: int
  card_active :: bool
  card_prev :: bool
  card_next :: bool
  card_number :: string
  card_date :: string
  card_color :: string
  card_label :: string
  card_title :: string
  card_description :: string
  card_files :: "string list"

datatype text_element = EntryNumber | EntryType

text \<open>
  Callbacks handed to \<^verbatim>\<open>setTimeout\<close> and \<^verbatim>\<open>requestAnimationFrame\<close>:
  the two timer bodies of \<^verbatim>\<open>goToIndex\<close> (lines 258-265 and 291-293), its animation
  frame body (lines 286-289), the timer body of \<^verbatim>\<open>animateText\<close> and \<^verbatim>\<open>positionRobot\<close>.
\<close>

datatype callback =
    EndTransitionRendered
  | EndTransitionSnapped
  | SlideAndUpdateUI
  | SetText text_element "string option"
  | PositionRobot

datatype task = Timeout nat callback | AnimationFrame callback

datatype console_msg = ConsoleError string | ConsoleWarn string | ConsoleLog string

text \<open>
  The heap of entry objects, the globals of the script (\<^verbatim>\<open>activityLog\<close>, an array of
  addresses, \<^verbatim>\<open>currentIndex\<close>, \<^verbatim>\<open>isAnimating\<close>, \<^verbatim>\<open>renderedRange\<close>) and what the script
  reads and writes of the page: the two strips,
  the slider's inline transition and offset (\<^verbatim>\<open>translateX(-offset px)\<close>), the header
  texts, the two buttons, the pending timers and animation frames, the console, and
  whether \<^verbatim>\<open>bindEvents\<close> has run. \<open>cardWidth\<close> is the \<^verbatim>\<open>offsetWidth\<close> the layout gives a
  card. The elements queried at lines 52-64 are taken to exist, and the cards and nodes
  of the page are those of the two strips.
\<close>

record state =
  heap :: "entry list"
  activityLog :: "nat list"
  currentIndex :: int
  isAnimating :: bool
  renderedRange :: rendered_range
  timelineNodes :: "node list"
  cardsRow :: "card list"
  sliderTransition :: string
  sliderOffset :: "int option"
  entryNumberText :: string
  entryTypeText :: string
  counterCurrentText :: string
  prevBtnDisabled :: bool
  nextBtnDisabled :: bool
  pending :: "task list"
  console :: "console_msg list"
  eventsBound :: bool
  cardWidth :: int

definition CARD_BUFFER :: int where
  "CARD_BUFFER = 3"

text \<open>The state when the script has been evaluated (lines 8 and 47-49), before any event.\<close>

definition initial_state :: "int \<Rightarrow> state" where
  "initial_state w =
     \<lparr>heap = [], activityLog = [], currentIndex = 0, isAnimating = False,
      renderedRange = \<lparr>rstart = 0, rend = 0\<rparr>,
      timelineNodes = [], cardsRow = [],
      sliderTransition = [], sliderOffset = None,
      entryNumberText = [], entryTypeText = [], counterCurrentText = [],
      prevBtnDisabled = False, nextBtnDisabled = False,
      pending = [], console = [], eventsBound = False, cardWidth = w\<rparr>"

section \<open>Loading\<close>

text \<open>
  What \<^verbatim>\<open>fetch('logs/entries.json')\<close> and \<^verbatim>\<open>response.json()\<close> come to: the fetch is
  rejected, the body is not JSON, the JSON value is not an array (so \<^verbatim>\<open>entries.map\<close>
  throws), or it is an array of entries.
\<close>

datatype fetch_outcome =
    FetchRejected
  | JsonRejected
  | JsonNotArray
  | JsonArray "raw_entry list"

definition stamp :: "raw_entry \<Rightarrow> int \<Rightarrow> entry" where
  "stamp e index =
     \<lparr>timestamp = timestamp e, entry_type = entry_type e, title = title e,
      description = description e, files = files e,
      entry_id = Some (make_id index), status = Some ''completed''\<rparr>"

text \<open>\<^verbatim>\<open>entries.map((entry, index) => ...)\<close> of lines 17-21.\<close>

fun map_index :: "(raw_entry \<Rightarrow> int \<Rightarrow> entry) \<Rightarrow> int \<Rightarrow> raw_entry list \<Rightarrow> entry list" where
  "map_index f i [] = []"
| "map_index f i (e # es) = f e i # map_index f (i + 1) es"

text \<open>
  \<^verbatim>\<open>loadActivityLog\<close>: the result is the returned array, or the error thrown to the
  caller; every failure inside the \<^verbatim>\<open>try\<close> goes to the \<^verbatim>\<open>catch\<close>. The callback of
  \<^verbatim>\<open>map\<close> builds a new object for each entry (the spread copies the parsed fields), so
  the new array holds addresses allocated by this call, in order.
\<close>

definition loadActivityLog :: "fetch_outcome \<Rightarrow> state \<Rightarrow> (js_error + nat list) \<times> state" where
  "loadActivityLog outcome s =
     (case outcome of
        JsonArray entries \<Rightarrow>
          (let base = length (heap s);
               s1 = s\<lparr>heap := heap s @ map_index stamp 0 entries\<rparr>;
               s2 = s1\<lparr>activityLog := [base..<base + length entries]\<rparr>
           in (Inr (activityLog s2), s2))
      | _ \<Rightarrow>
          (let s1 = s\<lparr>console := console s @ [ConsoleError ''Failed to load activity log:'']\<rparr>;
               s2 = s1\<lparr>activityLog := []\<rparr>
           in (Inr (activityLog s2), s2)))"

section \<open>Rendering\<close>

text \<open>\<^verbatim>\<open>entry.timestamp.split(' ')[0].slice(5)\<close> of line 143.\<close>

definition short_date :: "string \<Rightarrow> string" where
  "short_date ts = drop 5 (takeWhile (\<lambda>c. c \<noteq> CHR '' '') ts)"

text \<open>
  \<^verbatim>\<open>createNodeHTML\<close>. The template is evaluated left to right: the first access to the
  entry is \<^verbatim>\<open>typeConfig[entry.type].color\<close>, which throws when the entry is
  \<^verbatim>\<open>undefined\<close> or the lookup is.
\<close>

definition createNodeHTML :: "entry option \<Rightarrow> int \<Rightarrow> bool \<Rightarrow> js_error + node" where
  "createNodeHTML entry index isActive =
     (case entry of
        None \<Rightarrow> Inl TypeError
      | Some e \<Rightarrow>
          (case get_color (typeConfig_get (entry_type e)) of
             Inl err \<Rightarrow> Inl err
           | Inr color \<Rightarrow>
               (case get_label (typeConfig_get (entry_type e)) of
                  Inl err \<Rightarrow> Inl err
                | Inr label \<Rightarrow>
                    Inr \<lparr>node_index = index, node_active = isActive,
                         node_color = interpolate color,
                         node_number = short_date (timestamp e),
                         node_title = interpolate label\<rparr>)))"

text \<open>
  \<^verbatim>\<open>createCardHTML\<close>; the first access to the entry is \<^verbatim>\<open>entry.id\<close>. The text fields
  are taken to hold no markup, so that the HTML of an entry is one card and one marker.
\<close>

definition createCardHTML :: "entry option \<Rightarrow> int \<Rightarrow> bool \<Rightarrow> bool \<Rightarrow> bool \<Rightarrow> js_error + card" where
  "createCardHTML entry index isActive isPrev isNext =
     (case entry of
        None \<Rightarrow> Inl TypeError
      | Some e \<Rightarrow>
          (case get_color (typeConfig_get (entry_type e)) of
             Inl err \<Rightarrow> Inl err
           | Inr color \<Rightarrow>
               (case get_label (typeConfig_get (entry_type e)) of
                  Inl err \<Rightarrow> Inl err
                | Inr label \<Rightarrow>
                    Inr \<lparr>card_index = index, card_active = isActive,
                         card_prev = isPrev, card_next = isNext,
                         card_number = interpolate (entry_id e), card_date = timestamp e,
                         card_color = interpolate color, card_label = interpolate label,
                         card_title = title e, card_description = description e,
                         card_files = files e\<rparr>)))"

text \<open>
  The loop of lines 118-126 over the indices \<open>start..end\<close>: a marker and a card for each
  index, in order; a throw ends the loop.
\<close>

fun render_loop ::
  "entry list \<Rightarrow> nat list \<Rightarrow> int \<Rightarrow> int list \<Rightarrow> js_error + (node list \<times> card list)" where
  "render_loop h log ci [] = Inr ([], [])"
| "render_loop h log ci (i # is) =
     (case createNodeHTML (entry_of h log i) i (i = ci) of
        Inl err \<Rightarrow> Inl err
      | Inr n \<Rightarrow>
          (case createCardHTML (entry_of h log i) i (i = ci) (i = ci - 1) (i = ci + 1) of
             Inl err \<Rightarrow> Inl err
           | Inr c \<Rightarrow>
               (case render_loop h log ci is of
                  Inl err \<Rightarrow> Inl err
                | Inr (ns, cs) \<Rightarrow> Inr (n # ns, c # cs))))"

text \<open>
  \<^verbatim>\<open>updateCardActiveStates\<close>: the classes of each card are removed and one of
  active, prev, next-card is set by the \<^verbatim>\<open>else if\<close> chain; each marker's active
  class is toggled. Nothing else of a card or marker changes.
\<close>

definition refresh_card :: "int \<Rightarrow> card \<Rightarrow> card" where
  "refresh_card ci c =
     c\<lparr>card_active := (card_index c = ci),
       card_prev := (card_index c \<noteq> ci \<and> card_index c = ci - 1),
       card_next := (card_index c \<noteq> ci \<and> card_index c \<noteq> ci - 1 \<and> card_index c = ci + 1)\<rparr>"

definition refresh_node :: "int \<Rightarrow> node \<Rightarrow> node" where
  "refresh_node ci n = n\<lparr>node_active := (node_index n = ci)\<rparr>"

definition updateCardActiveStates :: "state \<Rightarrow> state" where
  "updateCardActiveStates s =
     s\<lparr>cardsRow := map (refresh_card (currentIndex s)) (cardsRow s),
       timelineNodes := map (refresh_node (currentIndex s)) (timelineNodes s)\<rparr>"

text \<open>
  Lines 102-103 of \<^verbatim>\<open>updateRenderedCards\<close>, with the buffer size and the entry count
  as arguments; the script calls it with \<open>CARD_BUFFER\<close> and \<^verbatim>\<open>activityLog.length\<close>.
\<close>

definition computeRange :: "int \<Rightarrow> int \<Rightarrow> int \<Rightarrow> rendered_range" where
  "computeRange index bufferSize entryCount =
     \<lparr>rstart = max 0 (index - bufferSize),
      rend = min (entryCount - 1) (index + bufferSize)\<rparr>"

text \<open>
  \<^verbatim>\<open>updateRenderedCards(forceRerender)\<close>: the result is the returned boolean, or the
  error thrown by the loop, after \<^verbatim>\<open>renderedRange\<close> has been assigned and before the
  strips are replaced.
\<close>

definition updateRenderedCards :: "bool \<Rightarrow> state \<Rightarrow> (js_error + bool) \<times> state" where
  "updateRenderedCards forceRerender s =
     (let r = computeRange (currentIndex s) CARD_BUFFER (int (length (activityLog s)))
      in if \<not> forceRerender \<and> rstart r = rstart (renderedRange s) \<and> rend r = rend (renderedRange s)
         then (Inr False, updateCardActiveStates s)
         else
           (let s1 = s\<lparr>renderedRange := r\<rparr>
            in case render_loop (heap s1) (activityLog s1) (currentIndex s1) [rstart r..rend r] of
                 Inl err \<Rightarrow> (Inl err, s1)
               | Inr (ns, cs) \<Rightarrow> (Inr True, s1\<lparr>timelineNodes := ns, cardsRow := cs\<rparr>)))"

section \<open>Header, buttons and slider\<close>

definition element_text :: "text_element \<Rightarrow> state \<Rightarrow> string" where
  "element_text el s = (case el of EntryNumber \<Rightarrow> entryNumberText s | EntryType \<Rightarrow> entryTypeText s)"

text \<open>
  \<^verbatim>\<open>animateText\<close>: nothing when the text is already there (\<^verbatim>\<open>===\<close>, which
  \<^verbatim>\<open>undefined\<close> never satisfies); else a 200 ms timer that sets it. The opacity and
  transform styles of the element are not part of the state.
\<close>

definition animateText :: "text_element \<Rightarrow> string option \<Rightarrow> state \<Rightarrow> state" where
  "animateText el newText s =
     (if newText = Some (element_text el s) then s
      else s\<lparr>pending := pending s @ [Timeout 200 (SetText el newText)]\<rparr>)"

text \<open>
  \<^verbatim>\<open>updateUI\<close>. Line 212 runs before line 213 reads \<^verbatim>\<open>entry.type\<close>, which throws on
  an \<^verbatim>\<open>undefined\<close> entry or lookup. \<^verbatim>\<open>positionRobot\<close> has an empty body.
\<close>

definition updateUI :: "state \<Rightarrow> (js_error + unit) \<times> state" where
  "updateUI s =
     (let entry = entry_of (heap s) (activityLog s) (currentIndex s);
          totalEntries = int (length (activityLog s));
          s1 = animateText EntryNumber (Some (make_id (currentIndex s))) s
      in case entry of
           None \<Rightarrow> (Inl TypeError, s1)
         | Some e \<Rightarrow>
             (case get_label (typeConfig_get (entry_type e)) of
                Inl err \<Rightarrow> (Inl err, s1)
              | Inr label \<Rightarrow>
                  (let s2 = animateText EntryType label s1;
                       s3 = s2\<lparr>counterCurrentText := CHR ''#'' # make_id (currentIndex s2)\<rparr>;
                       s4 = s3\<lparr>prevBtnDisabled := (currentIndex s3 = 0)\<rparr>;
                       s5 = s4\<lparr>nextBtnDisabled := (currentIndex s4 = totalEntries - 1)\<rparr>
                   in (Inr (), s5))))"

text \<open>
  The position in the strip of the last card whose index is the current one
  (\<^verbatim>\<open>activeCardIndex\<close> of lines 315-320), or -1.
\<close>

fun find_active :: "int \<Rightarrow> card list \<Rightarrow> int \<Rightarrow> int \<Rightarrow> int" where
  "find_active ci [] i acc = acc"
| "find_active ci (c # cs) i acc = find_active ci cs (i + 1) (if card_index c = ci then i else acc)"

text \<open>
  \<^verbatim>\<open>updateSliderPosition(animate)\<close>, with the gap of 24. Without animation the
  transition is switched off for the write and restored to the stylesheet's.
\<close>

definition updateSliderPosition :: "bool \<Rightarrow> state \<Rightarrow> state" where
  "updateSliderPosition animate s =
     (if cardsRow s = [] then s
      else
        (let activeCardIndex = find_active (currentIndex s) (cardsRow s) 0 (- 1)
         in if activeCardIndex = - 1 then s
            else
              (let offset = activeCardIndex * (cardWidth s + 24);
                   s1 = (if \<not> animate
                         then s\<lparr>sliderTransition := ''none'', sliderOffset := Some offset\<rparr>
                               \<lparr>sliderTransition := []\<rparr>
                         else s\<lparr>sliderOffset := Some offset\<rparr>)
               in s1\<lparr>pending := pending s1 @ [AnimationFrame PositionRobot]\<rparr>)))"

section \<open>Navigation\<close>

definition setTimeout :: "callback \<Rightarrow> nat \<Rightarrow> state \<Rightarrow> state" where
  "setTimeout cb delay s = s\<lparr>pending := pending s @ [Timeout delay cb]\<rparr>"

definition requestAnimationFrame :: "callback \<Rightarrow> state \<Rightarrow> state" where
  "requestAnimationFrame cb s = s\<lparr>pending := pending s @ [AnimationFrame cb]\<rparr>"

text \<open>
  \<^verbatim>\<open>goToIndex(index)\<close> for an integer index. A throw of \<^verbatim>\<open>updateUI\<close> or of
  \<^verbatim>\<open>updateRenderedCards\<close> leaves the function before its timer is set. In the second
  branch \<^verbatim>\<open>cards[0]?.offsetWidth || 500\<close> is 500 without a card or with a width of 0.
\<close>

definition goToIndex :: "int \<Rightarrow> state \<Rightarrow> (js_error + unit) \<times> state" where
  "goToIndex index s =
     (if isAnimating s \<or> index < 0 \<or> index \<ge> int (length (activityLog s)) then (Inr (), s)
      else
        (let s1 = s\<lparr>isAnimating := True\<rparr>;
             s2 = s1\<lparr>currentIndex := index\<rparr>;
             isRendered = (index \<ge> rstart (renderedRange s2) \<and> index \<le> rend (renderedRange s2))
         in if isRendered then
              (let s3 = updateCardActiveStates s2;
                   s4 = updateSliderPosition True s3
               in case updateUI s4 of
                    (Inl err, s5) \<Rightarrow> (Inl err, s5)
                  | (Inr u, s5) \<Rightarrow> (Inr (), setTimeout EndTransitionRendered 750 s5))
            else
              (let s3 = s2\<lparr>sliderTransition := ''none''\<rparr>
               in case updateRenderedCards True s3 of
                    (Inl err, s4) \<Rightarrow> (Inl err, s4)
                  | (Inr b, s4) \<Rightarrow>
                      (let width = (if cardsRow s4 = [] \<or> cardWidth s4 = 0 then 500 else cardWidth s4);
                           gap = 24;
                           startOffset = (CARD_BUFFER - 1) * (width + gap);
                           s5 = s4\<lparr>sliderOffset := Some startOffset\<rparr>;
                           s6 = s5\<lparr>sliderTransition := []\<rparr>;
                           s7 = requestAnimationFrame SlideAndUpdateUI s6
                       in (Inr (), setTimeout EndTransitionSnapped 750 s7)))))"

definition goToPrev :: "state \<Rightarrow> (js_error + unit) \<times> state" where
  "goToPrev s = (if currentIndex s > 0 then goToIndex (currentIndex s - 1) s else (Inr (), s))"

definition goToNext :: "state \<Rightarrow> (js_error + unit) \<times> state" where
  "goToNext s =
     (if currentIndex s < int (length (activityLog s)) - 1 then goToIndex (currentIndex s + 1) s
      else (Inr (), s))"

text \<open>
  The body of each callback, run when its timer or animation frame fires. Assigning
  \<^verbatim>\<open>undefined\<close> to \<^verbatim>\<open>textContent\<close> clears the text.
\<close>

definition run_callback :: "callback \<Rightarrow> state \<Rightarrow> (js_error + unit) \<times> state" where
  "run_callback cb s =
     (case cb of
        EndTransitionRendered \<Rightarrow>
          (case updateRenderedCards False s of
             (Inl err, s1) \<Rightarrow> (Inl err, s1)
           | (Inr didRerender, s1) \<Rightarrow>
               (let s2 = (if didRerender then updateSliderPosition False s1 else s1)
                in (Inr (), s2\<lparr>isAnimating := False\<rparr>)))
      | EndTransitionSnapped \<Rightarrow> (Inr (), s\<lparr>isAnimating := False\<rparr>)
      | SlideAndUpdateUI \<Rightarrow> updateUI (updateSliderPosition True s)
      | SetText el newText \<Rightarrow>
          (let txt = (case newText of Some x \<Rightarrow> x | None \<Rightarrow> [])
           in (Inr (), case el of EntryNumber \<Rightarrow> s\<lparr>entryNumberText := txt\<rparr>
                               | EntryType \<Rightarrow> s\<lparr>entryTypeText := txt\<rparr>))
      | PositionRobot \<Rightarrow> (Inr (), s))"

text \<open>
  The event loop takes a pending timer or animation frame off the list and runs its
  callback; \<open>None\<close> when there is no such task.
\<close>

definition task_callback :: "task \<Rightarrow> callback" where
  "task_callback t = (case t of Timeout d cb \<Rightarrow> cb | AnimationFrame cb \<Rightarrow> cb)"

definition fire :: "nat \<Rightarrow> state \<Rightarrow> ((js_error + unit) \<times> state) option" where
  "fire k s =
     (if k < length (pending s)
      then Some (run_callback (task_callback (pending s ! k))
                   (s\<lparr>pending := take k (pending s) @ drop (Suc k) (pending s)\<rparr>))
      else None)"

section \<open>Startup and the exported interface\<close>

text \<open>
  \<^verbatim>\<open>init\<close>. \<^verbatim>\<open>bindEvents\<close> and \<^verbatim>\<open>initMouseTracking\<close> only register listeners; the
  resize listener is registered too. The log message carries the entry count.
\<close>

definition init :: "state \<Rightarrow> (js_error + unit) \<times> state" where
  "init s =
     (let s1 = s\<lparr>currentIndex := int (length (activityLog s)) - 1\<rparr>
      in case updateRenderedCards False s1 of
           (Inl err, s2) \<Rightarrow> (Inl err, s2)
         | (Inr b, s2) \<Rightarrow>
             (case updateUI s2 of
                (Inl err, s3) \<Rightarrow> (Inl err, s3)
              | (Inr u, s3) \<Rightarrow>
                  (let s4 = updateSliderPosition False s3;
                       s5 = s4\<lparr>eventsBound := True\<rparr>;
                       s6 = requestAnimationFrame PositionRobot s5;
                       s7 = s6\<lparr>console := console s6 @
                              [ConsoleLog (''Timeline loaded with '' @
                                 js_String (int (length (activityLog s6))) @
                                 '' entries (virtual scrolling enabled)'')]\<rparr>
                   in (Inr (), s7))))"

text \<open>
  The \<^verbatim>\<open>DOMContentLoaded\<close> handler. \<^verbatim>\<open>initHoneycomb\<close> and \<^verbatim>\<open>initParallax\<close> draw the
  background and touch nothing of the state above. The awaited load is one step.
\<close>

definition domContentLoaded :: "fetch_outcome \<Rightarrow> state \<Rightarrow> (js_error + unit) \<times> state" where
  "domContentLoaded outcome s =
     (case loadActivityLog outcome s of
        (Inl err, s1) \<Rightarrow> (Inl err, s1)
      | (Inr log, s1) \<Rightarrow>
          if length (activityLog s1) = 0
          then (Inr (), s1\<lparr>console := console s1 @ [ConsoleWarn ''No log entries found'']\<rparr>)
          else init s1)"

text \<open>The members of \<^verbatim>\<open>window.TidyBotTimeline\<close>.\<close>

definition goToFirst :: "state \<Rightarrow> (js_error + unit) \<times> state" where
  "goToFirst s = goToIndex 0 s"

definition goToLast :: "state \<Rightarrow> (js_error + unit) \<times> state" where
  "goToLast s = goToIndex (int (length (activityLog s)) - 1) s"

text \<open>
  \<^verbatim>\<open>getCurrentEntry\<close> and \<^verbatim>\<open>getAllEntries\<close> hand out the objects and the array themselves:
  an address, and the list of addresses.
\<close>

definition getCurrentEntry :: "state \<Rightarrow> nat option" where
  "getCurrentEntry s = js_index (activityLog s) (currentIndex s)"

definition getAllEntries :: "state \<Rightarrow> nat list" where
  "getAllEntries s = activityLog s"

definition getEntryCount :: "state \<Rightarrow> int" where
  "getEntryCount s = int (length (activityLog s))"

text \<open>
  \<^verbatim>\<open>addEntry(entry)\<close>, the argument being the address of the caller's object: \<^verbatim>\<open>id\<close>
  and \<^verbatim>\<open>status\<close> are written on that object, in place, and the same object is pushed;
  then \<^verbatim>\<open>goToIndex\<close> is called with the last index. An address that holds no object
  stands for an argument that is \<^verbatim>\<open>undefined\<close> or \<^verbatim>\<open>null\<close>, on which the first
  assignment throws.
\<close>

definition set_id :: "string \<Rightarrow> entry \<Rightarrow> entry" where
  "set_id v e = e\<lparr>entry_id := Some v\<rparr>"

definition set_status :: "string \<Rightarrow> entry \<Rightarrow> entry" where
  "set_status v e = e\<lparr>status := Some v\<rparr>"

definition addEntry :: "nat \<Rightarrow> state \<Rightarrow> (js_error + unit) \<times> state" where
  "addEntry entry s =
     (case heap_get (heap s) entry of
        None \<Rightarrow> (Inl TypeError, s)
      | Some obj \<Rightarrow>
          (let s1 = s\<lparr>heap := (heap s)[entry := set_id (make_id (int (length (activityLog s)))) obj]\<rparr>;
               s2 = s1\<lparr>heap := (heap s1)[entry := set_status ''completed'' (heap s1 ! entry)]\<rparr>;
               s3 = s2\<lparr>activityLog := activityLog s2 @ [entry]\<rparr>
           in goToIndex (int (length (activityLog s3)) - 1) s3))"

text \<open>\<^verbatim>\<open>reload()\<close>, the awaited load being one step.\<close>

definition reload :: "fetch_outcome \<Rightarrow> state \<Rightarrow> (js_error + unit) \<times> state" where
  "reload outcome s =
     (case loadActivityLog outcome s of
        (Inl err, s1) \<Rightarrow> (Inl err, s1)
      | (Inr log, s1) \<Rightarrow>
          (let s2 = s1\<lparr>currentIndex := int (length (activityLog s1)) - 1\<rparr>;
               s3 = s2\<lparr>renderedRange := \<lparr>rstart = 0, rend = 0\<rparr>\<rparr>
           in case updateRenderedCards True s3 of
                (Inl err, s4) \<Rightarrow> (Inl err, s4)
              | (Inr b, s4) \<Rightarrow>
                  (case updateUI s4 of
                     (Inl err, s5) \<Rightarrow> (Inl err, s5)
                   | (Inr u, s5) \<Rightarrow> (Inr (), updateSliderPosition False s5))))"

text \<open>
  The entries of the store, read through the heap, and an object literal evaluated by
  a caller of the interface: a new object with the five fields and no \<^verbatim>\<open>id\<close> or
  \<^verbatim>\<open>status\<close>, at a new address.
\<close>

definition store_entries :: "state \<Rightarrow> entry option list" where
  "store_entries s = map (heap_get (heap s)) (activityLog s)"

definition new_object :: "raw_entry \<Rightarrow> state \<Rightarrow> nat \<times> state" where
  "new_object e s =
     (length (heap s),
      s\<lparr>heap := heap s @
           [\<lparr>timestamp = timestamp e, entry_type = entry_type e, title = title e,
             description = description e, files = files e,
             entry_id = None, status = None\<rparr>]\<rparr>)"

text \<open>
  A controller that cannot leave its transition: \<^verbatim>\<open>isAnimating\<close> is true and no pending
  task is the end of a transition.
\<close>

definition ends_transition :: "task \<Rightarrow> bool" where
  "ends_transition t =
     (task_callback t = EndTransitionRendered \<or> task_callback t = EndTransitionSnapped)"

definition stuck :: "state \<Rightarrow> bool" where
  "stuck s = (isAnimating s \<and> list_all (\<lambda>t. \<not> ends_transition t) (pending s))"

text \<open>Every entry of the store has a type for which \<^verbatim>\<open>typeConfig[type]\<close> is defined.\<close>

definition types_resolve :: "state \<Rightarrow> bool" where
  "types_resolve s =
     list_all
       (\<lambda>a. case heap_get (heap s) a of
               None \<Rightarrow> False
             | Some e \<Rightarrow> typeConfig_get (entry_type e) \<noteq> Undefined)
       (activityLog s)"

section \<open>Sample data\<close>

text \<open>Entries in the format of \<^verbatim>\<open>logs/README.md\<close>, and two with a type outside it.\<close>

definition entry_setup :: raw_entry where
  "entry_setup =
     \<lparr>timestamp = ''2024-10-24 09:00'', entry_type = ''setup'',
      title = ''Repository Initialized'', description = ''Created initial project structure.'',
      files = [''package.json'', ''.gitignore'']\<rparr>"

definition entry_feature :: raw_entry where
  "entry_feature =
     \<lparr>timestamp = ''2024-10-24 14:30'', entry_type = ''feature'',
      title = ''User Authentication'', description = ''Implemented JWT-based authentication system.'',
      files = [''src/auth/jwt.ts'', ''src/middleware/auth.ts'']\<rparr>"

definition entry_fix :: raw_entry where
  "entry_fix =
     \<lparr>timestamp = ''2024-10-25 08:15'', entry_type = ''fix'',
      title = ''Token expiry'', description = ''Fixed the expiry check.'',
      files = [''src/auth/jwt.ts'']\<rparr>"

definition entry_unknown :: raw_entry where
  "entry_unknown = entry_fix\<lparr>entry_type := ''unknown''\<rparr>"

definition entry_constructor :: raw_entry where
  "entry_constructor = entry_fix\<lparr>entry_type := ''constructor''\<rparr>"

definition log3 :: "raw_entry list" where
  "log3 = [entry_setup, entry_feature, entry_fix]"

definition log5 :: "raw_entry list" where
  "log5 = [entry_setup, entry_feature, entry_fix, entry_feature, entry_setup]"


definition started3 :: state where
  "started3 = snd (domContentLoaded (JsonArray log3) (initial_state 500))"

definition started5 :: state where
  "started5 = snd (domContentLoaded (JsonArray log5) (initial_state 500))"

text \<open>The same pages in the middle of a transition to the first entry.\<close>

definition moving3 :: state where
  "moving3 = snd (goToFirst started3)"

definition moving5 :: state where
  "moving5 = snd (goToFirst started5)"

text \<open>The three-entry page at rest on the first entry: the transition's timer has fired.\<close>

definition settled3 :: state where
  "settled3 =
     (case fire (length (pending moving3) - 1) moving3 of
        Some (r, s) \<Rightarrow> s
      | None \<Rightarrow> moving3)"

text \<open>
  Two pages whose last entry has a type that is no key of \<^verbatim>\<open>typeConfig\<close>: the state
  in which \<^verbatim>\<open>init\<close> renders the log ending with \<open>entry_unknown\<close>, and the outcome of
  startup on the log ending with \<open>entry_constructor\<close>.
\<close>

definition loaded_unknown :: state where
  "loaded_unknown =
     (snd (loadActivityLog (JsonArray [entry_setup, entry_unknown]) (initial_state 500)))
       \<lparr>currentIndex := 1\<rparr>"

definition page_constructor :: "(js_error + unit) \<times> state" where
  "page_constructor = domContentLoaded (JsonArray [entry_setup, entry_constructor]) (initial_state 500)"

text \<open>
  The page after startup on the log ending with \<open>entry_unknown\<close>: \<^verbatim>\<open>init\<close> has thrown
  while rendering, after setting the index and the range.
\<close>

definition started_unknown :: state where
  "started_unknown =
     snd (domContentLoaded (JsonArray [entry_setup, entry_unknown]) (initial_state 500))"

text \<open>
  A caller's new object for \<open>entry_feature\<close>, on the started three-entry page and on
  the same page in the middle of a transition: the address and the state holding it.
\<close>

definition offered3 :: "nat \<times> state" where
  "offered3 = new_object entry_feature started3"

definition offered_moving3 :: "nat \<times> state" where
  "offered_moving3 = new_object entry_feature moving3"

section \<open>Auxiliary facts\<close>

lemma length_map_index: "length (map_index f i es) = length es"
  by (induction es arbitrary: i) simp_all

lemma nth_map_index: "k < length es \<Longrightarrow> map_index f i es ! k = f (es ! k) (i + int k)"
proof (induction es arbitrary: i k)
  case Nil
  then show ?case by simp
next
  case (Cons e es)
  show ?case
  proof (cases k)
    case 0
    then show ?thesis by simp
  next
    case (Suc m)
    with Cons.prems have "m < length es" by simp
    from Cons.IH [OF this, of "i + 1"] Suc show ?thesis by (simp add: add.assoc)
  qed
qed

lemma heap_get_allocated:
  "map (heap_get (h @ xs)) [length h..<length h + length xs] = map Some xs"
  by (rule nth_equalityI) (simp_all add: heap_get_def nth_append)

lemma updateCardActiveStates_frame:
  "heap (updateCardActiveStates s) = heap s"
  "activityLog (updateCardActiveStates s) = activityLog s"
  "currentIndex (updateCardActiveStates s) = currentIndex s"
  "isAnimating (updateCardActiveStates s) = isAnimating s"
  "renderedRange (updateCardActiveStates s) = renderedRange s"
  "pending (updateCardActiveStates s) = pending s"
  by (simp_all add: updateCardActiveStates_def)

lemma updateSliderPosition_frame:
  "heap (updateSliderPosition a s) = heap s"
  "activityLog (updateSliderPosition a s) = activityLog s"
  "currentIndex (updateSliderPosition a s) = currentIndex s"
  "isAnimating (updateSliderPosition a s) = isAnimating s"
  "renderedRange (updateSliderPosition a s) = renderedRange s"
  "cardsRow (updateSliderPosition a s) = cardsRow s"
  "timelineNodes (updateSliderPosition a s) = timelineNodes s"
  by (simp_all add: updateSliderPosition_def Let_def)

lemma animateText_frame:
  "heap (animateText el t s) = heap s"
  "activityLog (animateText el t s) = activityLog s"
  "currentIndex (animateText el t s) = currentIndex s"
  "isAnimating (animateText el t s) = isAnimating s"
  "renderedRange (animateText el t s) = renderedRange s"
  "cardsRow (animateText el t s) = cardsRow s"
  "timelineNodes (animateText el t s) = timelineNodes s"
  by (simp_all add: animateText_def)

lemma updateUI_frame:
  "heap (snd (updateUI s)) = heap s"
  "activityLog (snd (updateUI s)) = activityLog s"
  "currentIndex (snd (updateUI s)) = currentIndex s"
  "isAnimating (snd (updateUI s)) = isAnimating s"
  "renderedRange (snd (updateUI s)) = renderedRange s"
  "cardsRow (snd (updateUI s)) = cardsRow s"
  "timelineNodes (snd (updateUI s)) = timelineNodes s"
  by (simp_all add: updateUI_def Let_def animateText_frame split: option.splits sum.splits)

lemma updateRenderedCards_frame:
  "heap (snd (updateRenderedCards f s)) = heap s"
  "activityLog (snd (updateRenderedCards f s)) = activityLog s"
  "currentIndex (snd (updateRenderedCards f s)) = currentIndex s"
  "isAnimating (snd (updateRenderedCards f s)) = isAnimating s"
  "pending (snd (updateRenderedCards f s)) = pending s"
  by (simp_all add: updateRenderedCards_def Let_def updateCardActiveStates_frame split: sum.splits prod.splits)

lemma updateRenderedCards_range:
  "renderedRange (snd (updateRenderedCards f s)) =
     computeRange (currentIndex s) CARD_BUFFER (int (length (activityLog s)))"
  by (auto simp add: updateRenderedCards_def Let_def updateCardActiveStates_frame split: sum.splits prod.splits intro: rendered_range.equality)

lemma computeRange_bounds:
  assumes "0 \<le> ci" "ci < n" "0 \<le> buf"
  shows "rstart (computeRange ci buf n) \<le> ci" "ci \<le> rend (computeRange ci buf n)"
    "0 \<le> rstart (computeRange ci buf n)" "rend (computeRange ci buf n) \<le> n - 1"
    "rend (computeRange ci buf n) - rstart (computeRange ci buf n) \<le> 2 * buf"
  using assms by (simp_all add: computeRange_def)

lemma goToIndex_rejected:
  "isAnimating s \<or> index < 0 \<or> index \<ge> int (length (activityLog s)) \<Longrightarrow> goToIndex index s = (Inr (), s)"
  by (simp add: goToIndex_def)

lemma setTimeout_frame:
  "heap (setTimeout cb d s) = heap s"
  "activityLog (setTimeout cb d s) = activityLog s"
  "currentIndex (setTimeout cb d s) = currentIndex s"
  "isAnimating (setTimeout cb d s) = isAnimating s"
  "renderedRange (setTimeout cb d s) = renderedRange s"
  "pending (setTimeout cb d s) = pending s @ [Timeout d cb]"
  by (simp_all add: setTimeout_def)

lemma requestAnimationFrame_frame:
  "heap (requestAnimationFrame cb s) = heap s"
  "activityLog (requestAnimationFrame cb s) = activityLog s"
  "currentIndex (requestAnimationFrame cb s) = currentIndex s"
  "isAnimating (requestAnimationFrame cb s) = isAnimating s"
  "renderedRange (requestAnimationFrame cb s) = renderedRange s"
  by (simp_all add: requestAnimationFrame_def)

lemmas frame_simps =
  updateCardActiveStates_frame updateSliderPosition_frame animateText_frame updateUI_frame
  updateRenderedCards_frame setTimeout_frame requestAnimationFrame_frame

lemma goToIndex_activityLog:
  "activityLog (snd (goToIndex index s)) = activityLog s"
  "heap (snd (goToIndex index s)) = heap s"
  by (simp_all add: goToIndex_def Let_def case_prod_beta frame_simps split: sum.splits)

lemma goToIndex_accepted:
  assumes "\<not> isAnimating s" "0 \<le> index" "index < int (length (activityLog s))"
  shows "isAnimating (snd (goToIndex index s))" "currentIndex (snd (goToIndex index s)) = index"
  using assms
  by (simp_all add: goToIndex_def Let_def case_prod_beta frame_simps split: sum.splits)

lemma goToIndex_range:
  assumes "\<not> isAnimating s" "0 \<le> index" "index < int (length (activityLog s))"
  shows "rstart (renderedRange (snd (goToIndex index s))) \<le> index \<and>
         index \<le> rend (renderedRange (snd (goToIndex index s)))"
  using assms
  by (simp add: goToIndex_def Let_def case_prod_beta frame_simps updateRenderedCards_range
      computeRange_def CARD_BUFFER_def split: sum.splits)

lemma goToPrev_activityLog:
  "activityLog (snd (goToPrev s)) = activityLog s" "heap (snd (goToPrev s)) = heap s"
  by (simp_all add: goToPrev_def goToIndex_activityLog)

lemma goToNext_activityLog:
  "activityLog (snd (goToNext s)) = activityLog s" "heap (snd (goToNext s)) = heap s"
  by (simp_all add: goToNext_def goToIndex_activityLog)

lemma run_callback_activityLog:
  "activityLog (snd (run_callback cb s)) = activityLog s"
  "heap (snd (run_callback cb s)) = heap s"
  by (cases cb;
      simp add: run_callback_def Let_def case_prod_beta frame_simps
        split: sum.splits text_element.splits)+

lemma js_error_unique: "(x::js_error) = y"
  by (cases x; cases y) simp

lemma typeConfig_get_Undefined_iff:
  "typeConfig_get k = Undefined \<longleftrightarrow> map_of typeConfig k = None \<and> k \<notin> set objectPrototypeKeys"
  by (simp add: typeConfig_get_def split: option.splits prod.splits)

lemma typeConfig_get_Inherited_iff:
  "typeConfig_get k = Inherited \<longleftrightarrow> map_of typeConfig k = None \<and> k \<in> set objectPrototypeKeys"
  by (simp add: typeConfig_get_def split: option.splits prod.splits)

lemma createNodeHTML_Undefined:
  "typeConfig_get (entry_type e) = Undefined \<Longrightarrow> createNodeHTML (Some e) i a = Inl TypeError"
  by (simp add: createNodeHTML_def)

lemma createCardHTML_Undefined:
  "typeConfig_get (entry_type e) = Undefined \<Longrightarrow> createCardHTML (Some e) i a p n = Inl TypeError"
  by (simp add: createCardHTML_def)

lemma entry_of_in_range:
  "entry_of h log i = Some e \<Longrightarrow> 0 \<le> i \<and> i < int (length log)"
  by (simp add: entry_of_def js_index_def split: if_splits)

lemma render_loop_throws:
  assumes "k \<in> set ks" and "entry_of h log k = Some e" and "typeConfig_get (entry_type e) = Undefined"
  shows "render_loop h log ci ks = Inl TypeError"
  using assms
proof (induction ks)
  case Nil
  then show ?case by simp
next
  case (Cons i ks)
  show ?case
  proof (cases "k = i")
    case True
    with Cons.prems show ?thesis by (simp add: createNodeHTML_Undefined)
  next
    case False
    with Cons.prems have "k \<in> set ks" by simp
    from Cons.IH [OF this Cons.prems(2,3)] show ?thesis
      by (simp add: js_error_unique split: sum.splits)
  qed
qed

lemma updateRenderedCards_throws:
  assumes "entry_of (heap s) (activityLog s) (currentIndex s) = Some e"
    and "typeConfig_get (entry_type e) = Undefined"
    and "forceRerender \<or> renderedRange s \<noteq> computeRange (currentIndex s) CARD_BUFFER (int (length (activityLog s)))"
  shows "fst (updateRenderedCards forceRerender s) = Inl TypeError"
proof -
  let ?r = "computeRange (currentIndex s) CARD_BUFFER (int (length (activityLog s)))"
  from entry_of_in_range [OF assms(1)]
  have v: "0 \<le> currentIndex s" "currentIndex s < int (length (activityLog s))" by simp_all
  have "0 \<le> CARD_BUFFER" by (simp add: CARD_BUFFER_def)
  from computeRange_bounds(1,2) [OF v this]
  have "currentIndex s \<in> set [rstart ?r..rend ?r]" by simp
  from render_loop_throws [OF this assms(1,2)]
  have rl: "render_loop (heap s) (activityLog s) (currentIndex s) [rstart ?r..rend ?r] = Inl TypeError" .
  from assms(3) have "\<not> (\<not> forceRerender \<and> rstart ?r = rstart (renderedRange s) \<and> rend ?r = rend (renderedRange s))"
    by (auto intro: rendered_range.equality)
  with rl show ?thesis
    by (simp add: updateRenderedCards_def Let_def)
qed

lemma updateUI_throws:
  assumes "entry_of (heap s) (activityLog s) (currentIndex s) = Some e"
    and "typeConfig_get (entry_type e) = Undefined"
  shows "fst (updateUI s) = Inl TypeError"
  using assms by (simp add: updateUI_def Let_def)

lemma loadActivityLog_array:
  "loadActivityLog (JsonArray es) s =
     (Inr [length (heap s)..<length (heap s) + length es],
      s\<lparr>heap := heap s @ map_index stamp 0 es,
        activityLog := [length (heap s)..<length (heap s) + length es]\<rparr>)"
  by (simp add: loadActivityLog_def Let_def)

lemma loadActivityLog_store_entries:
  "store_entries (snd (loadActivityLog (JsonArray es) s)) = map Some (map_index stamp 0 es)"
  using heap_get_allocated [of "heap s" "map_index stamp 0 es"]
  by (simp add: loadActivityLog_array store_entries_def length_map_index)

lemma loadActivityLog_failure:
  assumes "outcome = FetchRejected \<or> outcome = JsonRejected \<or> outcome = JsonNotArray"
  shows "loadActivityLog outcome s =
     (Inr [], s\<lparr>console := console s @ [ConsoleError ''Failed to load activity log:''], activityLog := []\<rparr>)"
  using assms by (auto simp add: loadActivityLog_def Let_def)

lemma reload_array:
  "activityLog (snd (reload (JsonArray es) s)) = [length (heap s)..<length (heap s) + length es]"
  "heap (snd (reload (JsonArray es) s)) = heap s @ map_index stamp 0 es"
  "currentIndex (snd (reload (JsonArray es) s)) = int (length es) - 1"
  "renderedRange (snd (reload (JsonArray es) s)) = computeRange (int (length es) - 1) CARD_BUFFER (int (length es))"
  "isAnimating (snd (reload (JsonArray es) s)) = isAnimating s"
  by (simp_all add: reload_def loadActivityLog_array Let_def case_prod_beta frame_simps
      updateRenderedCards_range split: sum.splits)

lemma addEntry_no_object:
  "heap_get (heap s) a = None \<Longrightarrow> addEntry a s = (Inl TypeError, s)"
  by (simp add: addEntry_def)

lemma addEntry_object:
  assumes "heap_get (heap s) a = Some obj"
  shows "activityLog (snd (addEntry a s)) = activityLog s @ [a]"
    and "heap (snd (addEntry a s)) =
           (heap s)[a := obj\<lparr>entry_id := Some (make_id (int (length (activityLog s)))),
                             status := Some ''completed''\<rparr>]"
proof -
  from assms have a: "a < length (heap s)" by (simp add: heap_get_def split: if_splits)
  from assms show "activityLog (snd (addEntry a s)) = activityLog s @ [a]"
    by (simp add: addEntry_def Let_def goToIndex_activityLog)
  from assms a show "heap (snd (addEntry a s)) =
           (heap s)[a := obj\<lparr>entry_id := Some (make_id (int (length (activityLog s)))),
                             status := Some ''completed''\<rparr>]"
    by (simp add: addEntry_def Let_def goToIndex_activityLog set_id_def set_status_def)
qed

lemma heap_get_update_other:
  "a \<noteq> b \<Longrightarrow> heap_get (h[a := v]) b = heap_get h b"
  by (simp add: heap_get_def)

lemma get_color_defined:
  "v \<noteq> Undefined \<Longrightarrow> \<exists>c. get_color v = Inr c"
  by (cases v) simp_all

lemma get_label_defined:
  "v \<noteq> Undefined \<Longrightarrow> \<exists>l. get_label v = Inr l"
  by (cases v) simp_all

lemma createNodeHTML_defined:
  assumes "typeConfig_get (entry_type e) \<noteq> Undefined"
  shows "\<exists>n. createNodeHTML (Some e) i a = Inr n"
  using get_color_defined [OF assms] get_label_defined [OF assms]
  by (auto simp add: createNodeHTML_def)

lemma createCardHTML_defined:
  assumes "typeConfig_get (entry_type e) \<noteq> Undefined"
  shows "\<exists>c. createCardHTML (Some e) i a p n = Inr c"
  using get_color_defined [OF assms] get_label_defined [OF assms]
  by (auto simp add: createCardHTML_def)

lemma types_resolve_entry:
  assumes "types_resolve s" and "0 \<le> i" and "i < int (length (activityLog s))"
  shows "\<exists>e. entry_of (heap s) (activityLog s) i = Some e \<and> typeConfig_get (entry_type e) \<noteq> Undefined"
proof -
  from assms(2,3) have n: "nat i < length (activityLog s)" by simp
  then have "activityLog s ! nat i \<in> set (activityLog s)" by (rule nth_mem)
  with assms(1) have "case heap_get (heap s) (activityLog s ! nat i) of
      None \<Rightarrow> False | Some e \<Rightarrow> typeConfig_get (entry_type e) \<noteq> Undefined"
    by (simp add: types_resolve_def list_all_iff)
  with assms(2,3) show ?thesis
    by (simp add: entry_of_def js_index_def split: option.splits)
qed

lemma types_resolve_cong:
  "heap t = heap s \<Longrightarrow> activityLog t = activityLog s \<Longrightarrow> types_resolve t = types_resolve s"
  by (simp add: types_resolve_def)

lemma render_loop_defined:
  assumes "\<forall>k \<in> set ks. 0 \<le> k \<and> k < int (length (activityLog s))"
    and "types_resolve s"
  shows "\<exists>ns cs. render_loop (heap s) (activityLog s) ci ks = Inr (ns, cs)"
  using assms(1)
proof (induction ks)
  case Nil
  then show ?case by simp
next
  case (Cons i ks)
  then have r: "0 \<le> i" "i < int (length (activityLog s))" by simp_all
  from types_resolve_entry [OF assms(2) r] obtain e
    where e: "entry_of (heap s) (activityLog s) i = Some e"
      and t: "typeConfig_get (entry_type e) \<noteq> Undefined" by blast
  from createNodeHTML_defined [OF t] obtain n where n: "createNodeHTML (Some e) i (i = ci) = Inr n"
    by blast
  from createCardHTML_defined [OF t] obtain c
    where c: "createCardHTML (Some e) i (i = ci) (i = ci - 1) (i = ci + 1) = Inr c"
    by blast
  from Cons have "\<exists>ns cs. render_loop (heap s) (activityLog s) ci ks = Inr (ns, cs)" by simp
  then obtain ns cs where "render_loop (heap s) (activityLog s) ci ks = Inr (ns, cs)" by blast
  with e n c show ?case by simp
qed

lemma updateRenderedCards_defined:
  assumes "0 \<le> currentIndex s" and "currentIndex s < int (length (activityLog s))"
    and "types_resolve s"
  shows "\<exists>b. fst (updateRenderedCards f s) = Inr b"
proof -
  let ?r = "computeRange (currentIndex s) CARD_BUFFER (int (length (activityLog s)))"
  have "0 \<le> CARD_BUFFER" by (simp add: CARD_BUFFER_def)
  from computeRange_bounds(3,4) [OF assms(1,2) this]
  have "\<forall>k \<in> set [rstart ?r..rend ?r]. 0 \<le> k \<and> k < int (length (activityLog s))" by auto
  from render_loop_defined [OF this assms(3), of "currentIndex s"]
  obtain ns cs
    where "render_loop (heap s) (activityLog s) (currentIndex s) [rstart ?r..rend ?r] = Inr (ns, cs)"
    by blast
  then show ?thesis by (auto simp add: updateRenderedCards_def Let_def)
qed

lemma updateUI_defined:
  assumes "0 \<le> currentIndex s" and "currentIndex s < int (length (activityLog s))"
    and "types_resolve s"
  shows "fst (updateUI s) = Inr ()"
proof -
  from types_resolve_entry [OF assms(3,1,2)] obtain e
    where e: "entry_of (heap s) (activityLog s) (currentIndex s) = Some e"
      and t: "typeConfig_get (entry_type e) \<noteq> Undefined" by blast
  from get_label_defined [OF t] e show ?thesis
    by (auto simp add: updateUI_def Let_def)
qed

lemma run_callback_EndTransitionRendered:
  assumes "0 \<le> currentIndex t" and "currentIndex t < int (length (activityLog t))"
    and "types_resolve t"
  shows "fst (run_callback EndTransitionRendered t) = Inr ()"
    and "\<not> isAnimating (snd (run_callback EndTransitionRendered t))"
    and "currentIndex (snd (run_callback EndTransitionRendered t)) = currentIndex t"
proof -
  from updateRenderedCards_defined [OF assms, of False]
  obtain b where b: "fst (updateRenderedCards False t) = Inr b" by blast
  then show "fst (run_callback EndTransitionRendered t) = Inr ()"
    by (simp add: run_callback_def case_prod_beta Let_def)
  from b show "\<not> isAnimating (snd (run_callback EndTransitionRendered t))"
    by (simp add: run_callback_def case_prod_beta Let_def)
  from b show "currentIndex (snd (run_callback EndTransitionRendered t)) = currentIndex t"
    by (simp add: run_callback_def case_prod_beta Let_def frame_simps)
qed

lemma run_callback_EndTransitionSnapped:
  "fst (run_callback EndTransitionSnapped t) = Inr ()"
  "\<not> isAnimating (snd (run_callback EndTransitionSnapped t))"
  "currentIndex (snd (run_callback EndTransitionSnapped t)) = currentIndex t"
  by (simp_all add: run_callback_def)

lemma fire_last:
  assumes "pending s = ts @ [t]"
  shows "fire (length (pending s) - 1) s = Some (run_callback (task_callback t) (s\<lparr>pending := ts\<rparr>))"
  using assms by (simp add: fire_def)

lemma goToIndex_transition:
  assumes "\<not> isAnimating s" and "0 \<le> i" and "i < int (length (activityLog s))"
    and "types_resolve s"
  shows "fst (goToIndex i s) = Inr () \<and>
         (\<exists>ts cb. pending (snd (goToIndex i s)) = ts @ [Timeout 750 cb] \<and>
            (cb = EndTransitionRendered \<or> cb = EndTransitionSnapped))"
proof (cases "rstart (renderedRange s) \<le> i \<and> i \<le> rend (renderedRange s)")
  case True
  let ?s4 = "updateSliderPosition True (updateCardActiveStates (s\<lparr>isAnimating := True, currentIndex := i\<rparr>))"
  have "types_resolve ?s4" using assms(4) by (simp add: types_resolve_def frame_simps)
  then have "fst (updateUI ?s4) = Inr ()"
    using assms(2,3) by (intro updateUI_defined) (simp_all add: frame_simps)
  with True assms(1-3) show ?thesis
    by (simp add: goToIndex_def Let_def case_prod_beta setTimeout_def)
next
  case False
  let ?s3 = "s\<lparr>isAnimating := True, currentIndex := i, sliderTransition := ''none''\<rparr>"
  have "types_resolve ?s3" using assms(4) by (simp add: types_resolve_def)
  then have "\<exists>b. fst (updateRenderedCards True ?s3) = Inr b"
    using assms(2,3) by (intro updateRenderedCards_defined) simp_all
  then obtain b where b: "fst (updateRenderedCards True ?s3) = Inr b" by blast
  from False have nr: "(rstart (renderedRange s) \<le> i \<and> i \<le> rend (renderedRange s)) = False" by simp
  from b assms(1-3) show ?thesis
    by (simp add: goToIndex_def Let_def case_prod_beta setTimeout_def requestAnimationFrame_def nr)
qed

lemma animateText_no_end:
  "list_all (\<lambda>t. \<not> ends_transition t) (pending s) \<Longrightarrow>
   list_all (\<lambda>t. \<not> ends_transition t) (pending (animateText el x s))"
  by (simp add: animateText_def ends_transition_def task_callback_def)

lemma updateSliderPosition_no_end:
  "list_all (\<lambda>t. \<not> ends_transition t) (pending s) \<Longrightarrow>
   list_all (\<lambda>t. \<not> ends_transition t) (pending (updateSliderPosition a s))"
  by (simp add: updateSliderPosition_def Let_def ends_transition_def task_callback_def)

lemma updateUI_no_end:
  "list_all (\<lambda>t. \<not> ends_transition t) (pending s) \<Longrightarrow>
   list_all (\<lambda>t. \<not> ends_transition t) (pending (snd (updateUI s)))"
  by (simp add: updateUI_def Let_def animateText_no_end split: option.splits sum.splits)

lemma stuck_rejects:
  assumes "stuck s"
  shows "goToIndex j s = (Inr (), s)" and "goToPrev s = (Inr (), s)" and "goToNext s = (Inr (), s)"
  using assms by (simp_all add: stuck_def goToIndex_rejected goToPrev_def goToNext_def)

lemma stuck_run_callback:
  assumes "stuck s" and "cb \<noteq> EndTransitionRendered" and "cb \<noteq> EndTransitionSnapped"
  shows "stuck (snd (run_callback cb s))"
proof (cases cb)
  case SlideAndUpdateUI
  from assms(1) have "list_all (\<lambda>t. \<not> ends_transition t) (pending (snd (updateUI (updateSliderPosition True s))))"
    by (simp add: stuck_def updateUI_no_end updateSliderPosition_no_end)
  with assms(1) SlideAndUpdateUI show ?thesis
    by (simp add: stuck_def run_callback_def frame_simps)
next
  case (SetText el x)
  with assms(1) show ?thesis
    by (simp add: stuck_def run_callback_def Let_def split: text_element.splits)
next
  case PositionRobot
  with assms(1) show ?thesis by (simp add: stuck_def run_callback_def)
qed (use assms in simp_all)

lemma stuck_fire:
  assumes "stuck s" and "fire k s = Some (r, s')"
  shows "stuck s'"
proof -
  from assms(2) have k: "k < length (pending s)"
    and r: "(r, s') = run_callback (task_callback (pending s ! k))
                        (s\<lparr>pending := take k (pending s) @ drop (Suc k) (pending s)\<rparr>)"
    by (simp_all add: fire_def split: if_splits)
  from assms(1) have n: "list_all (\<lambda>t. \<not> ends_transition t) (pending s)" by (simp add: stuck_def)
  with k have "\<not> ends_transition (pending s ! k)" by (simp add: list_all_length)
  then have c: "task_callback (pending s ! k) \<noteq> EndTransitionRendered"
    "task_callback (pending s ! k) \<noteq> EndTransitionSnapped"
    by (simp_all add: ends_transition_def)
  from n have "list_all (\<lambda>t. \<not> ends_transition t) (take k (pending s) @ drop (Suc k) (pending s))"
    by (auto simp add: list_all_iff dest: in_set_takeD in_set_dropD)
  with assms(1) have "stuck (s\<lparr>pending := take k (pending s) @ drop (Suc k) (pending s)\<rparr>)"
    by (simp add: stuck_def)
  from stuck_run_callback [OF this c] r [symmetric] show ?thesis by simp
qed

lemma stuck_addEntry:
  assumes "stuck s"
  shows "stuck (snd (addEntry a s))"
  using assms
  by (simp add: addEntry_def Let_def stuck_def goToIndex_rejected split: option.splits)

lemma stuck_reload:
  assumes "stuck s"
  shows "stuck (snd (reload outcome s))"
proof -
  obtain r s1 where l: "loadActivityLog outcome s = (r, s1)" by (cases "loadActivityLog outcome s")
  then have p: "pending s1 = pending s" and a: "isAnimating s1 = isAnimating s"
    and ok: "\<exists>log. r = Inr log"
    by (cases outcome; auto simp add: loadActivityLog_def Let_def)+
  from ok obtain log where r: "r = Inr log" by blast
  let ?s3 = "s1\<lparr>currentIndex := int (length (activityLog s1)) - 1, renderedRange := \<lparr>rstart = 0, rend = 0\<rparr>\<rparr>"
  from assms p a have s3: "stuck ?s3" by (simp add: stuck_def)
  let ?s4 = "snd (updateRenderedCards True ?s3)"
  from s3 have s4: "stuck ?s4" by (simp add: stuck_def frame_simps)
  then have s5: "stuck (snd (updateUI ?s4))" by (simp add: stuck_def updateUI_no_end frame_simps)
  then have s6: "stuck (updateSliderPosition False (snd (updateUI ?s4)))"
    by (simp add: stuck_def updateSliderPosition_no_end frame_simps)
  from l r s4 s5 s6 show ?thesis
    by (simp add: reload_def Let_def case_prod_beta split: sum.splits)
qed

lemma store_entries_cong:
  "heap t = heap s \<Longrightarrow> activityLog t = activityLog s \<Longrightarrow> store_entries t = store_entries s"
  by (simp add: store_entries_def)

lemma addEntry_keeps_other_entries:
  assumes "a \<notin> set (activityLog t)"
  shows "take (length (activityLog t)) (store_entries (snd (addEntry a t))) = store_entries t"
proof (cases "heap_get (heap t) a")
  case None
  then show ?thesis by (simp add: addEntry_no_object store_entries_def)
next
  case (Some obj)
  from assms have "map (heap_get ((heap t)[a := v])) (activityLog t) = map (heap_get (heap t)) (activityLog t)" for v
    by (intro map_cong refl heap_get_update_other) auto
  with addEntry_object [OF Some] show ?thesis
    by (simp add: store_entries_def)
qed

section \<open>The rendered window\<close>

text \<open>
  C1. For a current index within \<open>0 .. entryCount - 1\<close> and a buffer size of at least 0,
  the window computation returns \<open>start = max 0 (index - bufferSize)\<close> and
  \<open>end = min (entryCount - 1) (index + bufferSize)\<close>; so \<open>start \<le> index \<le> end\<close>,
  \<open>0 \<le> start\<close>, \<open>end \<le> entryCount - 1\<close> and \<open>end - start \<le> 2 * bufferSize\<close>. After
  \<^verbatim>\<open>updateRenderedCards\<close>, forced or not, \<^verbatim>\<open>renderedRange\<close> is the window of the current
  index for \<open>CARD_BUFFER\<close> and satisfies the same bounds.
\<close>

theorem computeRange_window:
  assumes "0 \<le> index" and "index < entryCount" and "0 \<le> bufferSize"
    and "r = computeRange index bufferSize entryCount"
    and "0 \<le> currentIndex s" and "currentIndex s < int (length (activityLog s))"
    and "s' = snd (updateRenderedCards forceRerender s)"
  shows "rstart r = max 0 (index - bufferSize) \<and>
         rend r = min (entryCount - 1) (index + bufferSize) \<and>
         rstart r \<le> index \<and> index \<le> rend r \<and> 0 \<le> rstart r \<and> rend r \<le> entryCount - 1 \<and>
         rend r - rstart r \<le> 2 * bufferSize \<and>
         renderedRange s' = computeRange (currentIndex s) CARD_BUFFER (int (length (activityLog s))) \<and>
         currentIndex s' = currentIndex s \<and>
         rstart (renderedRange s') \<le> currentIndex s' \<and> currentIndex s' \<le> rend (renderedRange s') \<and>
         0 \<le> rstart (renderedRange s') \<and> rend (renderedRange s') \<le> int (length (activityLog s')) - 1 \<and>
         rend (renderedRange s') - rstart (renderedRange s') \<le> 2 * CARD_BUFFER"
proof -
  have pure: "rstart r = max 0 (index - bufferSize) \<and>
         rend r = min (entryCount - 1) (index + bufferSize) \<and>
         rstart r \<le> index \<and> index \<le> rend r \<and> 0 \<le> rstart r \<and> rend r \<le> entryCount - 1 \<and>
         rend r - rstart r \<le> 2 * bufferSize"
    using assms(4) computeRange_bounds [OF assms(1-3)] by (simp add: computeRange_def)
  have rr: "renderedRange s' = computeRange (currentIndex s) CARD_BUFFER (int (length (activityLog s)))"
    using assms(7) by (simp add: updateRenderedCards_range)
  have ci: "currentIndex s' = currentIndex s" and al: "activityLog s' = activityLog s"
    using assms(7) by (simp_all add: updateRenderedCards_frame)
  have inv: "rstart (renderedRange s') \<le> currentIndex s' \<and> currentIndex s' \<le> rend (renderedRange s') \<and>
         0 \<le> rstart (renderedRange s') \<and> rend (renderedRange s') \<le> int (length (activityLog s')) - 1 \<and>
         rend (renderedRange s') - rstart (renderedRange s') \<le> 2 * CARD_BUFFER"
    using computeRange_bounds [OF assms(5,6), of CARD_BUFFER] by (simp add: rr ci al CARD_BUFFER_def)
  from pure rr ci inv show ?thesis by simp
qed

theorem computeRange_window_witness:
  "(0::int) \<le> 4 \<and> (4::int) < 5 \<and> (0::int) \<le> 3 \<and>
   0 \<le> currentIndex moving5 \<and> currentIndex moving5 < int (length (activityLog moving5)) \<and>
   computeRange 4 3 5 = \<lparr>rstart = 1, rend = 4\<rparr> \<and>
   renderedRange (snd (updateRenderedCards False moving5)) = \<lparr>rstart = 0, rend = 3\<rparr>"
proof -
  have h1: "0 \<le> currentIndex moving5" by code_simp
  have h2: "currentIndex moving5 < int (length (activityLog moving5))" by code_simp
  have v1: "computeRange 4 3 5 = \<lparr>rstart = 1, rend = 4\<rparr>" by (simp add: computeRange_def)
  have v2: "computeRange (currentIndex moving5) CARD_BUFFER (int (length (activityLog moving5))) = \<lparr>rstart = 0, rend = 3\<rparr>"
    by code_simp
  from computeRange_window [of 4 5 3 "computeRange 4 3 5" moving5 "snd (updateRenderedCards False moving5)" False, OF _ _ _ refl h1 h2 refl]
  have "renderedRange (snd (updateRenderedCards False moving5)) =
     computeRange (currentIndex moving5) CARD_BUFFER (int (length (activityLog moving5)))"
    by simp
  with h1 h2 v1 v2 show ?thesis by simp
qed




section \<open>Rejected navigation requests\<close>

text \<open>
  C2. While \<^verbatim>\<open>isAnimating\<close> is true a call of \<^verbatim>\<open>goToIndex\<close> (and so of \<^verbatim>\<open>goToPrev\<close> and
  \<^verbatim>\<open>goToNext\<close>) returns with the whole state as it was: no timer or animation frame
  is added and nothing of the page changes. In particular, after an accepted request
  for \<open>i\<close> the controller is animating, \<^verbatim>\<open>currentIndex\<close> is \<open>i\<close>, and a second request
  for any \<open>j\<close> leaves that state untouched.
\<close>

theorem goToIndex_while_animating:
  "(isAnimating s \<longrightarrow>
      goToIndex j s = (Inr (), s) \<and> goToPrev s = (Inr (), s) \<and> goToNext s = (Inr (), s)) \<and>
   (\<not> isAnimating s0 \<and> 0 \<le> i \<and> i < int (length (activityLog s0)) \<longrightarrow>
      isAnimating (snd (goToIndex i s0)) \<and>
      currentIndex (snd (goToIndex i s0)) = i \<and>
      goToIndex j (snd (goToIndex i s0)) = (Inr (), snd (goToIndex i s0)))"
  by (simp add: goToIndex_rejected goToIndex_accepted goToPrev_def goToNext_def)

theorem goToIndex_while_animating_witness:
  "isAnimating moving3 \<and> goToIndex 2 moving3 = (Inr (), moving3) \<and>
   goToPrev moving3 = (Inr (), moving3) \<and> goToNext moving3 = (Inr (), moving3) \<and>
   \<not> isAnimating started3 \<and> (0::int) \<le> 1 \<and> 1 < int (length (activityLog started3)) \<and>
   currentIndex (snd (goToIndex 1 started3)) = 1 \<and>
   goToIndex 2 (snd (goToIndex 1 started3)) = (Inr (), snd (goToIndex 1 started3))"
proof -
  have h1: "isAnimating moving3" by code_simp
  have h2: "\<not> isAnimating started3" by code_simp
  have h3: "1 < int (length (activityLog started3))" by code_simp
  from goToIndex_while_animating [of moving3 2 started3 1] h1 h2 h3
  show ?thesis by simp
qed

text \<open>
  C3. \<^verbatim>\<open>goToPrev\<close> at index 0 and \<^verbatim>\<open>goToNext\<close> at the last index return with the whole
  state as it was: \<^verbatim>\<open>currentIndex\<close>, \<^verbatim>\<open>renderedRange\<close> and \<^verbatim>\<open>isAnimating\<close> are unchanged
  and no timer is set.
\<close>

theorem goToPrev_goToNext_boundary:
  "(currentIndex s = 0 \<longrightarrow> goToPrev s = (Inr (), s)) \<and>
   (currentIndex s = int (length (activityLog s)) - 1 \<longrightarrow> goToNext s = (Inr (), s))"
  by (simp add: goToPrev_def goToNext_def)

theorem goToPrev_goToNext_boundary_witness:
  "activityLog settled3 \<noteq> [] \<and> currentIndex settled3 = 0 \<and> \<not> isAnimating settled3 \<and>
   goToPrev settled3 = (Inr (), settled3) \<and>
   activityLog started3 \<noteq> [] \<and> currentIndex started3 = int (length (activityLog started3)) - 1 \<and>
   \<not> isAnimating started3 \<and> goToNext started3 = (Inr (), started3)"
proof -
  have h1: "currentIndex settled3 = 0" by code_simp
  have h2: "currentIndex started3 = int (length (activityLog started3)) - 1" by code_simp
  have h3: "activityLog settled3 \<noteq> [] \<and> \<not> isAnimating settled3" by code_simp
  have h4: "activityLog started3 \<noteq> [] \<and> \<not> isAnimating started3" by code_simp
  from goToPrev_goToNext_boundary [of settled3] goToPrev_goToNext_boundary [of started3] h1 h2 h3 h4
  show ?thesis by simp
qed

section \<open>Types outside the registry\<close>

text \<open>
  C6. The claim asks for a lookup failure on every type outside the registry. The
  script misses that for a type that names a property inherited from
  \<^verbatim>\<open>Object.prototype\<close>: the type \<^verbatim>\<open>constructor\<close> is no key of \<^verbatim>\<open>typeConfig\<close>, yet on the
  log ending with \<open>entry_constructor\<close> startup completes without a throw and the entry
  is rendered with the label and the color \<^verbatim>\<open>undefined\<close>.
\<close>

theorem inherited_type_renders_undefined:
  "map_of typeConfig (entry_type entry_constructor) = None \<and>
   fst page_constructor = Inr () \<and>
   map card_label (cardsRow (snd page_constructor)) = [''Setup'', ''undefined''] \<and>
   map node_title (timelineNodes (snd page_constructor)) = [''Setup'', ''undefined''] \<and>
   map card_color (cardsRow (snd page_constructor)) = [''#9d4edd'', ''undefined'']"
  by code_simp

text \<open>
  The same for every inherited name: the marker and the card are built, with
  \<^verbatim>\<open>undefined\<close> for the label and the color.
\<close>

lemma inherited_type_lookup:
  assumes "map_of typeConfig (entry_type e) = None"
    and "entry_type e \<in> set objectPrototypeKeys"
  shows "createNodeHTML (Some e) i a =
           Inr \<lparr>node_index = i, node_active = a, node_color = ''undefined'',
                node_number = short_date (timestamp e), node_title = ''undefined''\<rparr> \<and>
         createCardHTML (Some e) i a p n =
           Inr \<lparr>card_index = i, card_active = a, card_prev = p, card_next = n,
                card_number = interpolate (entry_id e), card_date = timestamp e,
                card_color = ''undefined'', card_label = ''undefined'',
                card_title = title e, card_description = description e,
                card_files = files e\<rparr>"
proof -
  from assms have "typeConfig_get (entry_type e) = Inherited"
    by (simp add: typeConfig_get_Inherited_iff)
  then show ?thesis by (simp add: createNodeHTML_def createCardHTML_def)
qed

text \<open>
  For a type that is neither a key of \<^verbatim>\<open>typeConfig\<close> nor an inherited name (such as
  \<^verbatim>\<open>unknown\<close>) the lookup does fail: building the marker or the card throws a
  TypeError, and so do a rendering of the window around the entry and \<^verbatim>\<open>updateUI\<close> when
  it is the current entry. The type \<^verbatim>\<open>feature\<close> has the label \<^verbatim>\<open>Feature\<close>.
\<close>

lemma unregistered_type_lookup:
  assumes "map_of typeConfig (entry_type e) = None"
    and "entry_type e \<notin> set objectPrototypeKeys"
    and "entry_of (heap s) (activityLog s) (currentIndex s) = Some e"
  shows "createNodeHTML (Some e) i a = Inl TypeError \<and>
         createCardHTML (Some e) i a p n = Inl TypeError \<and>
         fst (updateRenderedCards True s) = Inl TypeError \<and>
         fst (updateUI s) = Inl TypeError \<and>
         typeConfig_get ''feature'' = ConfigEntry ''Feature'' ''#39ff14'' \<and>
         get_label (typeConfig_get ''feature'') = Inr (Some ''Feature'')"
proof -
  from assms(1,2) have u: "typeConfig_get (entry_type e) = Undefined"
    by (simp add: typeConfig_get_Undefined_iff)
  have f: "typeConfig_get ''feature'' = ConfigEntry ''Feature'' ''#39ff14''"
    by (simp add: typeConfig_get_def typeConfig_def)
  from u f assms(3) show ?thesis
    by (simp add: createNodeHTML_Undefined createCardHTML_Undefined updateRenderedCards_throws updateUI_throws)
qed

lemma unregistered_type_lookup_example:
  "map_of typeConfig ''unknown'' = None \<and> ''unknown'' \<notin> set objectPrototypeKeys \<and>
   entry_of (heap loaded_unknown) (activityLog loaded_unknown) (currentIndex loaded_unknown) =
     Some (stamp entry_unknown 1) \<and>
   createNodeHTML (Some (stamp entry_unknown 1)) 1 True = Inl TypeError \<and>
   createCardHTML (Some (stamp entry_unknown 1)) 1 True False False = Inl TypeError \<and>
   fst (updateRenderedCards True loaded_unknown) = Inl TypeError \<and>
   fst (updateUI loaded_unknown) = Inl TypeError"
proof -
  have t: "entry_type (stamp entry_unknown 1) = ''unknown''" by code_simp
  have h1: "map_of typeConfig ''unknown'' = None" by code_simp
  have h2: "''unknown'' \<notin> set objectPrototypeKeys" by code_simp
  have h3: "entry_of (heap loaded_unknown) (activityLog loaded_unknown) (currentIndex loaded_unknown) =
     Some (stamp entry_unknown 1)"
    by code_simp
  from unregistered_type_lookup [of "stamp entry_unknown 1" loaded_unknown 1 True False False] t h1 h2 h3
  show ?thesis by simp
qed

section \<open>Loading and reloading\<close>

text \<open>
  C5. When the fetch is rejected, the body is not JSON or the value is not an array,
  \<^verbatim>\<open>loadActivityLog\<close> returns normally with the empty array: the store is empty and an
  error is written to the console. The startup handler then writes its warning and
  returns without running \<^verbatim>\<open>init\<close>: nothing else of the page changes, and on the
  resulting page every call of \<^verbatim>\<open>goToIndex\<close>, \<^verbatim>\<open>goToPrev\<close> and \<^verbatim>\<open>goToNext\<close> does nothing.
\<close>

theorem load_failure_is_soft:
  assumes "outcome = FetchRejected \<or> outcome = JsonRejected \<or> outcome = JsonNotArray"
    and "s1 = s\<lparr>console := console s @ [ConsoleError ''Failed to load activity log:''], activityLog := []\<rparr>"
    and "s2 = s1\<lparr>console := console s1 @ [ConsoleWarn ''No log entries found'']\<rparr>"
  shows "loadActivityLog outcome s = (Inr [], s1) \<and>
         domContentLoaded outcome s = (Inr (), s2) \<and>
         getEntryCount s2 = 0 \<and>
         goToIndex j s2 = (Inr (), s2) \<and> goToPrev s2 = (Inr (), s2) \<and> goToNext s2 = (Inr (), s2)"
proof -
  have l: "loadActivityLog outcome s = (Inr [], s1)"
    using assms(1,2) by (simp add: loadActivityLog_failure)
  have e: "activityLog s1 = []" "activityLog s2 = []"
    using assms(2,3) by simp_all
  have d: "domContentLoaded outcome s = (Inr (), s2)"
    using l e assms(3) by (simp add: domContentLoaded_def)
  have g: "goToIndex k s2 = (Inr (), s2)" for k
    using e by (cases "k < 0") (simp_all add: goToIndex_rejected)
  from l d e g show ?thesis
    by (simp add: goToPrev_def goToNext_def getEntryCount_def)
qed

theorem load_failure_is_soft_witness:
  "loadActivityLog JsonRejected (initial_state 500) =
     (Inr [], (initial_state 500)\<lparr>console := [ConsoleError ''Failed to load activity log:'']\<rparr>) \<and>
   domContentLoaded JsonRejected (initial_state 500) =
     (Inr (), (initial_state 500)
        \<lparr>console := [ConsoleError ''Failed to load activity log:'', ConsoleWarn ''No log entries found'']\<rparr>) \<and>
   goToIndex 0 (snd (domContentLoaded JsonRejected (initial_state 500))) =
     (Inr (), snd (domContentLoaded JsonRejected (initial_state 500)))"
  using load_failure_is_soft [of JsonRejected _ "initial_state 500" _ 0, OF _ refl refl]
  by (simp add: initial_state_def)

text \<open>
  C7. After \<^verbatim>\<open>reload\<close> on a non-empty array the store holds new objects, the stamped
  entries of the array in order, whatever it held before, and \<^verbatim>\<open>currentIndex\<close> is the
  last index; after a following \<^verbatim>\<open>goToLast\<close> the store is the same, \<^verbatim>\<open>currentIndex\<close> is
  still the last index and the rendered range contains it.
\<close>

theorem reload_then_goToLast:
  assumes "es \<noteq> []" and "s1 = snd (reload (JsonArray es) s)" and "s2 = snd (goToLast s1)"
  shows "store_entries s1 = map Some (map_index stamp 0 es) \<and>
         activityLog s1 = [length (heap s)..<length (heap s) + length es] \<and>
         getEntryCount s1 = int (length es) \<and>
         currentIndex s1 = getEntryCount s1 - 1 \<and>
         getAllEntries s2 = getAllEntries s1 \<and>
         store_entries s2 = store_entries s1 \<and>
         getEntryCount s2 = int (length es) \<and>
         currentIndex s2 = getEntryCount s2 - 1 \<and>
         rstart (renderedRange s2) \<le> currentIndex s2 \<and> currentIndex s2 \<le> rend (renderedRange s2)"
proof -
  let ?n = "int (length es)"
  from assms(1) have n: "0 \<le> ?n - 1" "?n - 1 < ?n" by (simp_all add: Suc_le_eq)
  have a1: "activityLog s1 = [length (heap s)..<length (heap s) + length es]"
    and h1: "heap s1 = heap s @ map_index stamp 0 es"
    and c1: "currentIndex s1 = ?n - 1"
    and r1: "renderedRange s1 = computeRange (?n - 1) CARD_BUFFER ?n"
    using assms(2) by (simp_all add: reload_array)
  have e1: "store_entries s1 = map Some (map_index stamp 0 es)"
    using heap_get_allocated [of "heap s" "map_index stamp 0 es"]
    by (simp add: store_entries_def a1 h1 length_map_index)
  have len1: "int (length (activityLog s1)) = ?n" by (simp add: a1)
  have in1: "rstart (renderedRange s1) \<le> ?n - 1 \<and> ?n - 1 \<le> rend (renderedRange s1)"
    using computeRange_bounds(1,2) [OF n, of CARD_BUFFER] by (simp add: r1 CARD_BUFFER_def)
  have a2: "activityLog s2 = activityLog s1" and h2: "heap s2 = heap s1"
    using assms(3) by (simp_all add: goToLast_def goToIndex_activityLog)
  have "currentIndex s2 = ?n - 1 \<and> rstart (renderedRange s2) \<le> ?n - 1 \<and> ?n - 1 \<le> rend (renderedRange s2)"
  proof (cases "isAnimating s1")
    case True
    then have "s2 = s1" using assms(3) by (simp add: goToLast_def goToIndex_rejected)
    with c1 in1 show ?thesis by simp
  next
    case False
    from n len1 have v: "0 \<le> ?n - 1" "?n - 1 < int (length (activityLog s1))" by simp_all
    from goToIndex_accepted(2) [OF False v] goToIndex_range [OF False v] assms(3) len1
    show ?thesis by (simp add: goToLast_def)
  qed
  with e1 a1 a2 h2 c1 len1 show ?thesis
    by (simp add: getEntryCount_def getAllEntries_def store_entries_def)
qed

theorem reload_then_goToLast_witness:
  "log5 \<noteq> [] \<and>
   store_entries (snd (reload (JsonArray log5) moving3)) = map Some (map_index stamp 0 log5) \<and>
   currentIndex (snd (goToLast (snd (reload (JsonArray log5) moving3)))) = 4 \<and>
   getEntryCount (snd (goToLast (snd (reload (JsonArray log5) moving3)))) = 5 \<and>
   rstart (renderedRange (snd (goToLast (snd (reload (JsonArray log5) moving3))))) \<le> 4 \<and>
   4 \<le> rend (renderedRange (snd (goToLast (snd (reload (JsonArray log5) moving3)))))"
proof -
  have h: "log5 \<noteq> []" by (simp add: log5_def)
  have n: "int (length log5) = 5" by (simp add: log5_def)
  from reload_then_goToLast [OF h refl refl, of moving3]
  have "store_entries (snd (reload (JsonArray log5) moving3)) = map Some (map_index stamp 0 log5)"
    and "getEntryCount (snd (goToLast (snd (reload (JsonArray log5) moving3)))) = 5"
    and "currentIndex (snd (goToLast (snd (reload (JsonArray log5) moving3)))) =
         getEntryCount (snd (goToLast (snd (reload (JsonArray log5) moving3)))) - 1"
    and "rstart (renderedRange (snd (goToLast (snd (reload (JsonArray log5) moving3))))) \<le>
         currentIndex (snd (goToLast (snd (reload (JsonArray log5) moving3))))"
    and "currentIndex (snd (goToLast (snd (reload (JsonArray log5) moving3)))) \<le>
         rend (renderedRange (snd (goToLast (snd (reload (JsonArray log5) moving3)))))"
    by (simp_all add: n)
  with h show ?thesis by simp
qed

section \<open>Identifiers and added entries\<close>

text \<open>
  C9, as the claim states it, fails: the identifier written at load time is not the
  zero-based index. The three loaded entries carry the ids \<^verbatim>\<open>001\<close>, \<^verbatim>\<open>002\<close>, \<^verbatim>\<open>003\<close>,
  and the id of the entry at index 0 is not \<^verbatim>\<open>String(0)\<close>.
\<close>

theorem loaded_entry_identifier_counterexample:
  "map (map_option entry_id) (store_entries (snd (loadActivityLog (JsonArray log3) (initial_state 500)))) =
     [Some (Some ''001''), Some (Some ''002''), Some (Some ''003'')] \<and>
   map_option entry_id (store_entries (snd (loadActivityLog (JsonArray log3) (initial_state 500))) ! 0) \<noteq>
     Some (Some (js_String 0)) \<and>
   js_String 0 = ''0''"
  by code_simp

text \<open>
  C9, amended. \<^verbatim>\<open>loadActivityLog\<close> keeps the order and the fields of the source array:
  the entry at zero-based index \<open>i\<close> of the store is a new object with the fields of
  source entry \<open>i\<close>, the status \<^verbatim>\<open>completed\<close> and the id
  \<^verbatim>\<open>String(i + 1).padStart(3, '0')\<close>, the one-based number padded to three digits.
  Navigation and the timer callbacks leave the entries of the store as they are, and so
  does \<^verbatim>\<open>addEntry\<close> of an object that is not already in the store.
\<close>

theorem loaded_entry_identifier:
  assumes "i < length es" and "s1 = snd (loadActivityLog (JsonArray es) s)"
    and "a \<notin> set (activityLog t)"
  shows "length (activityLog s1) = length es \<and>
         store_entries s1 ! i =
           Some \<lparr>timestamp = timestamp (es ! i), entry_type = entry_type (es ! i),
                 title = title (es ! i), description = description (es ! i), files = files (es ! i),
                 entry_id = Some (padStart 3 (CHR ''0'') (js_String (int i + 1))),
                 status = Some ''completed''\<rparr> \<and>
         store_entries (snd (goToIndex j t)) = store_entries t \<and>
         store_entries (snd (goToPrev t)) = store_entries t \<and>
         store_entries (snd (goToNext t)) = store_entries t \<and>
         store_entries (snd (run_callback cb t)) = store_entries t \<and>
         take (length (activityLog t)) (store_entries (snd (addEntry a t))) = store_entries t"
proof -
  have e: "store_entries s1 = map Some (map_index stamp 0 es)"
    using assms(2) by (simp add: loadActivityLog_store_entries)
  have l: "length (activityLog s1) = length es"
    using assms(2) by (simp add: loadActivityLog_array)
  have n: "map_index stamp 0 es ! i = stamp (es ! i) (int i)"
    using nth_map_index [OF assms(1), of stamp 0] by simp
  from assms(1) have "store_entries s1 ! i = Some (stamp (es ! i) (int i))"
    by (simp add: e n length_map_index)
  then have i: "store_entries s1 ! i =
           Some \<lparr>timestamp = timestamp (es ! i), entry_type = entry_type (es ! i),
                 title = title (es ! i), description = description (es ! i), files = files (es ! i),
                 entry_id = Some (padStart 3 (CHR ''0'') (js_String (int i + 1))),
                 status = Some ''completed''\<rparr>"
    by (simp add: stamp_def make_id_def)
  have g: "store_entries (snd (goToIndex j t)) = store_entries t"
    by (rule store_entries_cong) (simp_all add: goToIndex_activityLog)
  have p: "store_entries (snd (goToPrev t)) = store_entries t"
    by (rule store_entries_cong) (simp_all add: goToPrev_activityLog)
  have x: "store_entries (snd (goToNext t)) = store_entries t"
    by (rule store_entries_cong) (simp_all add: goToNext_activityLog)
  have c: "store_entries (snd (run_callback cb t)) = store_entries t"
    by (rule store_entries_cong) (simp_all add: run_callback_activityLog)
  from l i g p x c addEntry_keeps_other_entries [OF assms(3)] show ?thesis
    by blast
qed

theorem loaded_entry_identifier_witness:
  "(1::nat) < length log3 \<and> fst offered3 \<notin> set (activityLog (snd offered3)) \<and>
   map_option entry_id (store_entries (snd (loadActivityLog (JsonArray log3) (initial_state 500))) ! 1) =
     Some (Some ''002'') \<and>
   map_option title (store_entries (snd (loadActivityLog (JsonArray log3) (initial_state 500))) ! 1) =
     Some ''User Authentication'' \<and>
   take 3 (store_entries (snd (addEntry (fst offered3) (snd offered3)))) = store_entries (snd offered3)"
proof -
  have h: "(1::nat) < length log3" by (simp add: log3_def)
  have a: "fst offered3 \<notin> set (activityLog (snd offered3))" by code_simp
  have n: "length (activityLog (snd offered3)) = 3" by code_simp
  have v: "padStart 3 (CHR ''0'') (js_String (int 1 + 1)) = ''002''" by code_simp
  have w: "title (log3 ! 1) = ''User Authentication''" by code_simp
  from loaded_entry_identifier [OF h refl a, of "initial_state 500"] h a n v w
  show ?thesis by simp
qed

text \<open>
  C8, as the claim states it, fails: while a transition is running \<^verbatim>\<open>addEntry\<close> appends
  the entry but its \<^verbatim>\<open>goToIndex\<close> call is rejected, so the current entry stays the old
  one.
\<close>

theorem addEntry_counterexample:
  "isAnimating (snd offered_moving3) \<and> getEntryCount (snd offered_moving3) = 3 \<and>
   fst offered_moving3 = 3 \<and>
   map_option title (heap_get (heap (snd offered_moving3)) (fst offered_moving3)) =
     Some ''User Authentication'' \<and>
   getEntryCount (snd (addEntry (fst offered_moving3) (snd offered_moving3))) = 4 \<and>
   currentIndex (snd (addEntry (fst offered_moving3) (snd offered_moving3))) = 0 \<and>
   getCurrentEntry (snd (addEntry (fst offered_moving3) (snd offered_moving3))) = Some 0 \<and>
   getCurrentEntry (snd (addEntry (fst offered_moving3) (snd offered_moving3))) \<noteq>
     Some (fst offered_moving3)"
  by code_simp

text \<open>
  C8, amended. \<^verbatim>\<open>addEntry\<close> on a store of \<open>n\<close> entries writes the id
  \<^verbatim>\<open>String(n + 1).padStart(3, '0')\<close> and the status \<^verbatim>\<open>completed\<close> on the object it is
  given and appends that object to the store in memory, so the count becomes \<open>n + 1\<close>;
  no other object changes. When no transition is running it navigates to the entry:
  \<^verbatim>\<open>currentIndex\<close> is the new last index \<open>n\<close>, \<^verbatim>\<open>getCurrentEntry\<close> is the object given, a
  transition is running and the rendered range contains \<open>n\<close>. While a transition is
  running nothing but the object and the store changes.
\<close>

theorem addEntry_appends_and_navigates:
  assumes "heap_get (heap s) a = Some obj" and "n = int (length (activityLog s))"
    and "s' = snd (addEntry a s)"
  shows "activityLog s' = activityLog s @ [a] \<and>
         heap s' = (heap s)[a := obj\<lparr>entry_id := Some (padStart 3 (CHR ''0'') (js_String (n + 1))),
                                    status := Some ''completed''\<rparr>] \<and>
         getEntryCount s' = getEntryCount s + 1 \<and>
         (\<not> isAnimating s \<longrightarrow>
            currentIndex s' = n \<and> getCurrentEntry s' = Some a \<and> isAnimating s' \<and>
            rstart (renderedRange s') \<le> n \<and> n \<le> rend (renderedRange s')) \<and>
         (isAnimating s \<longrightarrow>
            s' = s\<lparr>heap := (heap s)[a := obj\<lparr>entry_id := Some (padStart 3 (CHR ''0'') (js_String (n + 1))),
                                              status := Some ''completed''\<rparr>],
                   activityLog := activityLog s @ [a]\<rparr>)"
proof -
  let ?h = "(heap s)[a := obj\<lparr>entry_id := Some (make_id n), status := Some ''completed''\<rparr>]"
  let ?s3 = "s\<lparr>heap := ?h, activityLog := activityLog s @ [a]\<rparr>"
  from assms(1) have lt: "a < length (heap s)" by (simp add: heap_get_def split: if_splits)
  have s': "s' = snd (goToIndex n ?s3)"
    using assms lt by (simp add: addEntry_def Let_def set_id_def set_status_def)
  have al: "activityLog s' = activityLog s @ [a]" and hp: "heap s' = ?h"
    using addEntry_object [OF assms(1)] assms(2,3) by simp_all
  have idle: "currentIndex s' = n \<and> getCurrentEntry s' = Some a \<and> isAnimating s' \<and>
            rstart (renderedRange s') \<le> n \<and> n \<le> rend (renderedRange s')" if "\<not> isAnimating s"
  proof -
    from that have i: "\<not> isAnimating ?s3" by simp
    have v: "0 \<le> n" "n < int (length (activityLog ?s3))" using assms(2) by simp_all
    from goToIndex_accepted [OF i v] goToIndex_range [OF i v] s'
    have c: "currentIndex s' = n" "isAnimating s'"
      "rstart (renderedRange s') \<le> n \<and> n \<le> rend (renderedRange s')" by simp_all
    have "getCurrentEntry s' = Some a"
      using assms(2) by (simp add: getCurrentEntry_def js_index_def c al nth_append)
    with c show ?thesis by simp
  qed
  have busy: "s' = ?s3" if "isAnimating s"
    using that s' by (simp add: goToIndex_rejected)
  have hp': "heap s' = (heap s)[a := obj\<lparr>entry_id := Some (padStart 3 (CHR ''0'') (js_String (n + 1))),
                                    status := Some ''completed''\<rparr>]"
    using hp by (simp add: make_id_def)
  have cnt: "getEntryCount s' = getEntryCount s + 1"
    by (simp add: getEntryCount_def al)
  have c4: "\<not> isAnimating s \<longrightarrow>
            currentIndex s' = n \<and> getCurrentEntry s' = Some a \<and> isAnimating s' \<and>
            rstart (renderedRange s') \<le> n \<and> n \<le> rend (renderedRange s')"
    using idle by blast
  have c5: "isAnimating s \<longrightarrow>
            s' = s\<lparr>heap := (heap s)[a := obj\<lparr>entry_id := Some (padStart 3 (CHR ''0'') (js_String (n + 1))),
                                              status := Some ''completed''\<rparr>],
                   activityLog := activityLog s @ [a]\<rparr>"
    using busy by (simp add: make_id_def)
  from al hp' cnt c4 c5 show ?thesis by blast
qed

theorem addEntry_appends_and_navigates_witness:
  "\<not> isAnimating (snd offered3) \<and> getEntryCount (snd offered3) = 3 \<and> fst offered3 = 3 \<and>
   getEntryCount (snd (addEntry 3 (snd offered3))) = 4 \<and>
   currentIndex (snd (addEntry 3 (snd offered3))) = 3 \<and>
   getCurrentEntry (snd (addEntry 3 (snd offered3))) = Some 3 \<and>
   isAnimating (snd offered_moving3) \<and>
   activityLog (snd (addEntry 3 (snd offered_moving3))) = activityLog (snd offered_moving3) @ [3] \<and>
   currentIndex (snd (addEntry 3 (snd offered_moving3))) = currentIndex (snd offered_moving3)"
proof -
  obtain o1 where o1: "heap_get (heap (snd offered3)) 3 = Some o1"
    by (cases "heap_get (heap (snd offered3)) 3") (code_simp, simp)
  obtain o2 where o2: "heap_get (heap (snd offered_moving3)) 3 = Some o2"
    by (cases "heap_get (heap (snd offered_moving3)) 3") (code_simp, simp)
  have n1: "int (length (activityLog (snd offered3))) = 3" by code_simp
  have n2: "int (length (activityLog (snd offered_moving3))) = 3" by code_simp
  have h1: "\<not> isAnimating (snd offered3)" by code_simp
  have h2: "isAnimating (snd offered_moving3)" by code_simp
  have f: "fst offered3 = 3" by code_simp
  note t1 = addEntry_appends_and_navigates [OF o1 n1 [symmetric] refl]
  note t2 = addEntry_appends_and_navigates [OF o2 n2 [symmetric] refl]
  from t1 h1 have a1: "currentIndex (snd (addEntry 3 (snd offered3))) = 3"
    and a2: "getCurrentEntry (snd (addEntry 3 (snd offered3))) = Some 3"
    and a3: "getEntryCount (snd (addEntry 3 (snd offered3))) = getEntryCount (snd offered3) + 1"
    by blast+
  from t2 have b1: "activityLog (snd (addEntry 3 (snd offered_moving3))) = activityLog (snd offered_moving3) @ [3]"
    by blast
  from t2 h2 have "snd (addEntry 3 (snd offered_moving3)) =
      (snd offered_moving3)\<lparr>heap := (heap (snd offered_moving3))
           [3 := o2\<lparr>entry_id := Some (padStart 3 (CHR ''0'') (js_String (3 + 1))),
                    status := Some ''completed''\<rparr>],
         activityLog := activityLog (snd offered_moving3) @ [3]\<rparr>"
    by blast
  then have b2: "currentIndex (snd (addEntry 3 (snd offered_moving3))) = currentIndex (snd offered_moving3)"
    by simp
  have c: "getEntryCount (snd offered3) = 3" using n1 by (simp add: getEntryCount_def)
  from a1 a2 a3 b1 b2 c h1 h2 f show ?thesis by simp
qed

text \<open>
  The object is written in place: when the current entry of the three-entry page is
  handed to \<^verbatim>\<open>addEntry\<close>, the store holds that object twice and its id reads \<^verbatim>\<open>004\<close> at
  both places.
\<close>

lemma addEntry_of_stored_entry:
  "getCurrentEntry started3 = Some 2 \<and>
   map (map_option entry_id) (store_entries started3) =
     [Some (Some ''001''), Some (Some ''002''), Some (Some ''003'')] \<and>
   map (map_option entry_id) (store_entries (snd (addEntry 2 started3))) =
     [Some (Some ''001''), Some (Some ''002''), Some (Some ''004''), Some (Some ''004'')]"
  by code_simp

section \<open>A request for the current index\<close>

text \<open>
  C10. The claim has the request for the current index start a transition that blocks
  navigation until the timer of 750 ms ends it. The script misses that on the page
  started on the log ending with \<open>entry_unknown\<close>, a non-empty store with no transition
  running and the current index 1: \<^verbatim>\<open>goToIndex(1)\<close> sets \<^verbatim>\<open>isAnimating\<close>, then \<^verbatim>\<open>updateUI\<close>
  throws before the timer is set. The only pending task is a text timer of 200 ms, no
  task ends the transition, and the controller cannot leave it.
\<close>

theorem goToIndex_current_unknown_type_stuck:
  "\<not> isAnimating started_unknown \<and> getEntryCount started_unknown = 2 \<and>
   currentIndex started_unknown = 1 \<and>
   fst (goToIndex 1 started_unknown) = Inl TypeError \<and>
   isAnimating (snd (goToIndex 1 started_unknown)) \<and>
   currentIndex (snd (goToIndex 1 started_unknown)) = 1 \<and>
   pending (snd (goToIndex 1 started_unknown)) = [Timeout 200 (SetText EntryNumber (Some ''002''))] \<and>
   stuck (snd (goToIndex 1 started_unknown))"
  by code_simp

text \<open>
  Such a controller stays as it is under every step of the script: every navigation
  request is rejected, and \<^verbatim>\<open>addEntry\<close>, \<^verbatim>\<open>reload\<close> and every pending task that fires
  leave it in the same condition.
\<close>

lemma stuck_forever:
  assumes "stuck s"
  shows "goToIndex j s = (Inr (), s) \<and> goToPrev s = (Inr (), s) \<and> goToNext s = (Inr (), s) \<and>
         stuck (snd (addEntry a s)) \<and> stuck (snd (reload outcome s)) \<and>
         (case fire k s of None \<Rightarrow> True | Some (r, s') \<Rightarrow> stuck s')"
proof -
  have "case fire k s of None \<Rightarrow> True | Some (r, s') \<Rightarrow> stuck s'"
    using stuck_fire [OF assms] by (auto split: option.splits)
  with stuck_rejects [OF assms] stuck_addEntry [OF assms] stuck_reload [OF assms]
  show ?thesis by simp
qed

text \<open>
  On every non-empty store with no transition running the request for the current
  index is no no-op: the state changes, \<^verbatim>\<open>isAnimating\<close> becomes true while
  \<^verbatim>\<open>currentIndex\<close> stays, and every further \<^verbatim>\<open>goToIndex\<close>, \<^verbatim>\<open>goToPrev\<close> and \<^verbatim>\<open>goToNext\<close>
  is rejected; no callback other than the end of a transition clears the flag. When
  every entry's type resolves in \<^verbatim>\<open>typeConfig\<close>, the call returns normally, its last
  pending task is the timer of 750 ms, and when that timer fires the transition is over
  with \<^verbatim>\<open>currentIndex\<close> unchanged.
\<close>

lemma goToIndex_current_starts_transition:
  assumes "\<not> isAnimating s" and "0 \<le> currentIndex s"
    and "currentIndex s < int (length (activityLog s))"
    and "s1 = snd (goToIndex (currentIndex s) s)"
  shows "s1 \<noteq> s \<and> isAnimating s1 \<and> currentIndex s1 = currentIndex s \<and>
         goToIndex j s1 = (Inr (), s1) \<and> goToPrev s1 = (Inr (), s1) \<and> goToNext s1 = (Inr (), s1) \<and>
         (other \<noteq> EndTransitionRendered \<and> other \<noteq> EndTransitionSnapped \<longrightarrow>
            isAnimating (snd (run_callback other s1))) \<and>
         (types_resolve s \<longrightarrow>
            fst (goToIndex (currentIndex s) s) = Inr () \<and>
            (\<exists>ts cb s2. pending s1 = ts @ [Timeout 750 cb] \<and>
               fire (length (pending s1) - 1) s1 = Some (Inr (), s2) \<and>
               \<not> isAnimating s2 \<and> currentIndex s2 = currentIndex s))"
proof -
  from goToIndex_accepted [OF assms(1-3)] assms(4)
  have a: "isAnimating s1" and c: "currentIndex s1 = currentIndex s" by simp_all
  from a assms(1) have ne: "s1 \<noteq> s" by auto
  from a have r: "goToIndex k s1 = (Inr (), s1)" for k by (simp add: goToIndex_rejected)
  have l: "activityLog s1 = activityLog s" and h: "heap s1 = heap s"
    using assms(4) by (simp_all add: goToIndex_activityLog)
  have timer: "fst (goToIndex (currentIndex s) s) = Inr () \<and>
            (\<exists>ts cb s2. pending s1 = ts @ [Timeout 750 cb] \<and>
               fire (length (pending s1) - 1) s1 = Some (Inr (), s2) \<and>
               \<not> isAnimating s2 \<and> currentIndex s2 = currentIndex s)"
    if wt: "types_resolve s"
  proof -
    from goToIndex_transition [OF assms(1-3) wt] assms(4)
    obtain ts cb where ok: "fst (goToIndex (currentIndex s) s) = Inr ()"
      and p: "pending s1 = ts @ [Timeout 750 cb]"
      and cb: "cb = EndTransitionRendered \<or> cb = EndTransitionSnapped"
      by auto
    let ?t = "s1\<lparr>pending := ts\<rparr>"
    from fire_last [OF p]
    have f: "fire (length (pending s1) - 1) s1 = Some (run_callback cb ?t)"
      by (simp add: task_callback_def)
    have "types_resolve ?t" using wt by (simp add: types_resolve_def l h)
    with assms(2,3) have v: "0 \<le> currentIndex ?t" "currentIndex ?t < int (length (activityLog ?t))"
      "types_resolve ?t"
      by (simp_all add: c l)
    from cb have "fst (run_callback cb ?t) = Inr () \<and> \<not> isAnimating (snd (run_callback cb ?t)) \<and>
        currentIndex (snd (run_callback cb ?t)) = currentIndex ?t"
      using run_callback_EndTransitionRendered [OF v] run_callback_EndTransitionSnapped [of ?t]
      by auto
    then have "run_callback cb ?t = (Inr (), snd (run_callback cb ?t)) \<and>
        \<not> isAnimating (snd (run_callback cb ?t)) \<and>
        currentIndex (snd (run_callback cb ?t)) = currentIndex s"
      by (simp add: c prod_eq_iff)
    with f p ok show ?thesis by auto
  qed
  have o: "isAnimating (snd (run_callback other s1))"
    if "other \<noteq> EndTransitionRendered" and "other \<noteq> EndTransitionSnapped"
    using that a
    by (cases other) (simp_all add: run_callback_def Let_def frame_simps split: text_element.splits)
  from a c ne r o timer show ?thesis
    by (simp add: goToPrev_def goToNext_def)
qed

lemma goToIndex_current_starts_transition_example:
  "\<not> isAnimating started3 \<and> currentIndex started3 = 2 \<and> getEntryCount started3 = 3 \<and>
   types_resolve started3 \<and>
   snd (goToIndex 2 started3) \<noteq> started3 \<and>
   isAnimating (snd (goToIndex 2 started3)) \<and>
   currentIndex (snd (goToIndex 2 started3)) = 2 \<and>
   goToIndex 0 (snd (goToIndex 2 started3)) = (Inr (), snd (goToIndex 2 started3)) \<and>
   fst (goToIndex 2 started3) = Inr () \<and>
   (\<exists>ts cb s2. pending (snd (goToIndex 2 started3)) = ts @ [Timeout 750 cb] \<and>
      fire (length (pending (snd (goToIndex 2 started3))) - 1) (snd (goToIndex 2 started3)) =
        Some (Inr (), s2) \<and>
      \<not> isAnimating s2 \<and> currentIndex s2 = 2)"
proof -
  have h1: "\<not> isAnimating started3" by code_simp
  have k: "currentIndex started3 = 2" by code_simp
  have n: "int (length (activityLog started3)) = 3" by code_simp
  have wt: "types_resolve started3" by code_simp
  have h2: "0 \<le> currentIndex started3" and h3: "currentIndex started3 < int (length (activityLog started3))"
    by (simp_all add: k n)
  from goToIndex_current_starts_transition [OF h1 h2 h3 refl, of 0 SlideAndUpdateUI] h1 k n wt
  show ?thesis by (simp add: getEntryCount_def)
qed

end
